theory Spec2Isabelle
  imports Complex_Main
begin

section \<open>JavaScript numbers\<close>

text \<open>
  A JavaScript number is modelled as a real number or one of the three special values
  of IEEE 754. Arithmetic on finite values is exact (rounding is not modelled, and the
  two zeros are one value, taken as positive where a sign is needed); the special values
  follow the IEEE rules that the operators \<open>+ - * / %\<close>, the comparisons and the
  \<open>Math\<close> functions of the language implement.
\<close>

datatype jsnum = Num real | PosInf | NegInf | NaN

fun isNaN :: "jsnum \<Rightarrow> bool" where
  "isNaN NaN = True"
| "isNaN _ = False"

fun isFinite :: "jsnum \<Rightarrow> bool" where
  "isFinite (Num _) = True"
| "isFinite _ = False"

text \<open>Truthiness of a number: \<open>0\<close> and \<open>NaN\<close> are falsy.\<close>

fun js_truthy :: "jsnum \<Rightarrow> bool" where
  "js_truthy (Num r) = (r \<noteq> 0)"
| "js_truthy NaN = False"
| "js_truthy _ = True"

fun js_neg :: "jsnum \<Rightarrow> jsnum" where
  "js_neg (Num a) = Num (- a)"
| "js_neg PosInf = NegInf"
| "js_neg NegInf = PosInf"
| "js_neg NaN = NaN"

fun js_add :: "jsnum \<Rightarrow> jsnum \<Rightarrow> jsnum" where
  "js_add NaN _ = NaN"
| "js_add _ NaN = NaN"
| "js_add (Num a) (Num b) = Num (a + b)"
| "js_add PosInf NegInf = NaN"
| "js_add NegInf PosInf = NaN"
| "js_add PosInf _ = PosInf"
| "js_add NegInf _ = NegInf"
| "js_add (Num a) b = b"

definition js_sub :: "jsnum \<Rightarrow> jsnum \<Rightarrow> jsnum" where
  "js_sub a b = js_add a (js_neg b)"

text \<open>The sign of a product or quotient with an infinite operand.\<close>

definition js_inf :: "bool \<Rightarrow> jsnum" where
  "js_inf positive = (if positive then PosInf else NegInf)"

fun js_mul :: "jsnum \<Rightarrow> jsnum \<Rightarrow> jsnum" where
  "js_mul NaN _ = NaN"
| "js_mul _ NaN = NaN"
| "js_mul (Num a) (Num b) = Num (a * b)"
| "js_mul (Num a) PosInf = (if a = 0 then NaN else js_inf (0 < a))"
| "js_mul (Num a) NegInf = (if a = 0 then NaN else js_inf (a < 0))"
| "js_mul PosInf (Num b) = (if b = 0 then NaN else js_inf (0 < b))"
| "js_mul NegInf (Num b) = (if b = 0 then NaN else js_inf (b < 0))"
| "js_mul PosInf PosInf = PosInf"
| "js_mul NegInf NegInf = PosInf"
| "js_mul PosInf NegInf = NegInf"
| "js_mul NegInf PosInf = NegInf"

fun js_div :: "jsnum \<Rightarrow> jsnum \<Rightarrow> jsnum" where
  "js_div NaN _ = NaN"
| "js_div _ NaN = NaN"
| "js_div (Num a) (Num b) =
     (if b = 0 then (if a = 0 then NaN else js_inf (0 < a)) else Num (a / b))"
| "js_div (Num a) _ = Num 0"
| "js_div PosInf (Num b) = js_inf (0 \<le> b)"
| "js_div NegInf (Num b) = js_inf (b < 0)"
| "js_div _ _ = NaN"

text \<open>
  The remainder operator \<open>%\<close>: the quotient is truncated towards zero, so the result
  has the sign of the dividend.
\<close>

definition trunc_real :: "real \<Rightarrow> int" where
  "trunc_real r = (if 0 \<le> r then \<lfloor>r\<rfloor> else \<lceil>r\<rceil>)"

definition fmod :: "real \<Rightarrow> real \<Rightarrow> real" where
  "fmod a b = a - b * of_int (trunc_real (a / b))"

fun js_rem :: "jsnum \<Rightarrow> jsnum \<Rightarrow> jsnum" where
  "js_rem (Num a) (Num b) = (if b = 0 then NaN else Num (fmod a b))"
| "js_rem (Num a) PosInf = Num a"
| "js_rem (Num a) NegInf = Num a"
| "js_rem _ _ = NaN"

fun js_floor :: "jsnum \<Rightarrow> jsnum" where
  "js_floor (Num a) = Num (of_int \<lfloor>a\<rfloor>)"
| "js_floor v = v"

fun js_ceil :: "jsnum \<Rightarrow> jsnum" where
  "js_ceil (Num a) = Num (of_int \<lceil>a\<rceil>)"
| "js_ceil v = v"

text \<open>\<open>Math.round\<close> rounds to the nearest integer, a tie upwards.\<close>

fun js_round :: "jsnum \<Rightarrow> jsnum" where
  "js_round (Num a) = Num (of_int \<lfloor>a + 1 / 2\<rfloor>)"
| "js_round v = v"

fun js_lt :: "jsnum \<Rightarrow> jsnum \<Rightarrow> bool" where
  "js_lt NaN _ = False"
| "js_lt _ NaN = False"
| "js_lt (Num a) (Num b) = (a < b)"
| "js_lt _ NegInf = False"
| "js_lt PosInf _ = False"
| "js_lt _ _ = True"

text \<open>Strict equality \<open>===\<close> on numbers: \<open>NaN\<close> equals nothing.\<close>

definition js_eq :: "jsnum \<Rightarrow> jsnum \<Rightarrow> bool" where
  "js_eq a b = (a = b \<and> a \<noteq> NaN)"

definition js_le :: "jsnum \<Rightarrow> jsnum \<Rightarrow> bool" where
  "js_le a b = (js_lt a b \<or> js_eq a b)"

definition js_gt :: "jsnum \<Rightarrow> jsnum \<Rightarrow> bool" where
  "js_gt a b = js_lt b a"

definition js_ge :: "jsnum \<Rightarrow> jsnum \<Rightarrow> bool" where
  "js_ge a b = js_le b a"

text \<open>\<open>Math.min\<close> and \<open>Math.max\<close> of two numbers: \<open>NaN\<close> if either is.\<close>

definition js_min :: "jsnum \<Rightarrow> jsnum \<Rightarrow> jsnum" where
  "js_min a b = (if isNaN a \<or> isNaN b then NaN else if js_lt b a then b else a)"

definition js_max :: "jsnum \<Rightarrow> jsnum \<Rightarrow> jsnum" where
  "js_max a b = (if isNaN a \<or> isNaN b then NaN else if js_lt a b then b else a)"

fun js_abs :: "jsnum \<Rightarrow> jsnum" where
  "js_abs (Num a) = Num \<bar>a\<bar>"
| "js_abs NaN = NaN"
| "js_abs _ = PosInf"

fun js_sin :: "jsnum \<Rightarrow> jsnum" where
  "js_sin (Num a) = Num (sin a)"
| "js_sin _ = NaN"

fun js_log :: "jsnum \<Rightarrow> jsnum" where
  "js_log (Num a) = (if a < 0 then NaN else if a = 0 then NegInf else Num (ln a))"
| "js_log PosInf = PosInf"
| "js_log _ = NaN"

section \<open>Geometric primitives\<close>

text \<open>\<open>Point\<close>: a pair of numbers. \<open>Bounds\<close>: a rectangle given by two corners.\<close>

record Point =
  px :: jsnum
  py :: jsnum

record Bounds =
  bmin :: Point
  bmax :: Point

definition Point_add :: "Point \<Rightarrow> Point \<Rightarrow> Point" where
  "Point_add p q = \<lparr>px = js_add (px p) (px q), py = js_add (py p) (py q)\<rparr>"

definition Point_subtract :: "Point \<Rightarrow> Point \<Rightarrow> Point" where
  "Point_subtract p q = \<lparr>px = js_sub (px p) (px q), py = js_sub (py p) (py q)\<rparr>"

definition Point_unscaleBy :: "Point \<Rightarrow> Point \<Rightarrow> Point" where
  "Point_unscaleBy p q = \<lparr>px = js_div (px p) (px q), py = js_div (py p) (py q)\<rparr>"

definition Point_floor :: "Point \<Rightarrow> Point" where
  "Point_floor p = \<lparr>px = js_floor (px p), py = js_floor (py p)\<rparr>"

definition Point_ceil :: "Point \<Rightarrow> Point" where
  "Point_ceil p = \<lparr>px = js_ceil (px p), py = js_ceil (py p)\<rparr>"

text \<open>
  \<open>new Bounds(a, b)\<close> extends an empty rectangle by \<open>a\<close> and then by \<open>b\<close>: the first
  point sets both corners, the second moves each corner with \<open>Math.min\<close> and
  \<open>Math.max\<close>.
\<close>

definition Bounds_extend :: "Bounds option \<Rightarrow> Point \<Rightarrow> Bounds" where
  "Bounds_extend this p =
     (case this of
        None \<Rightarrow> \<lparr>bmin = p, bmax = p\<rparr>
      | Some b \<Rightarrow>
          \<lparr>bmin = \<lparr>px = js_min (px p) (px (bmin b)), py = js_min (py p) (py (bmin b))\<rparr>,
           bmax = \<lparr>px = js_max (px p) (px (bmax b)), py = js_max (py p) (py (bmax b))\<rparr>\<rparr>)"

definition new_Bounds :: "Point \<Rightarrow> Point \<Rightarrow> Bounds" where
  "new_Bounds a b = Bounds_extend (Some (Bounds_extend None a)) b"

definition Bounds_getCenter :: "Bounds \<Rightarrow> Point" where
  "Bounds_getCenter b =
     \<lparr>px = js_div (js_add (px (bmin b)) (px (bmax b))) (Num 2),
      py = js_div (js_add (py (bmin b)) (py (bmax b))) (Num 2)\<rparr>"

definition Bounds_getBottomLeft :: "Bounds \<Rightarrow> Point" where
  "Bounds_getBottomLeft b = \<lparr>px = px (bmin b), py = py (bmax b)\<rparr>"

definition Bounds_getTopRight :: "Bounds \<Rightarrow> Point" where
  "Bounds_getTopRight b = \<lparr>px = px (bmax b), py = py (bmin b)\<rparr>"

definition Bounds_contains :: "Bounds \<Rightarrow> Point \<Rightarrow> bool" where
  "Bounds_contains b p =
     (js_ge (px p) (px (bmin b)) \<and> js_le (px p) (px (bmax b)) \<and>
      js_ge (py p) (py (bmin b)) \<and> js_le (py p) (py (bmax b)))"

section \<open>Geographic coordinates\<close>

datatype error =
    InvalidLatLng jsnum jsnum  \<comment> \<open>\<open>Invalid LatLng object: (lat, lng)\<close>\<close>
  | ViewNotSet  \<comment> \<open>\<open>Set map center and zoom first.\<close>\<close>
  | InfiniteTiles  \<comment> \<open>\<open>Attempted to load an infinite number of tiles\<close>\<close>

record LatLng =
  lat :: jsnum
  lng :: jsnum
  alt :: "jsnum option"

text \<open>The constructor of \<open>LatLng\<close>; an altitude that is not given stays undefined.\<close>

definition new_LatLng :: "jsnum \<Rightarrow> jsnum \<Rightarrow> jsnum option \<Rightarrow> error + LatLng" where
  "new_LatLng la lo al =
     (if isNaN la \<or> isNaN lo then Inl (InvalidLatLng la lo)
      else Inr \<lparr>lat = la, lng = lo, alt = al\<rparr>)"

section \<open>Spherical Mercator\<close>

definition earthRadius :: jsnum where
  "earthRadius = Num 6378137"

definition MAX_LATITUDE :: jsnum where
  "MAX_LATITUDE = Num 85.0511287798"

definition SphericalMercator_project :: "LatLng \<Rightarrow> Point" where
  "SphericalMercator_project latlng =
     (let d = js_div (Num pi) (Num 180);
          mx = MAX_LATITUDE;
          la = js_max (js_min mx (lat latlng)) (js_neg mx);
          sn = js_sin (js_mul la d)
      in \<lparr>px = js_mul (js_mul earthRadius (lng latlng)) d,
          py = js_div (js_mul earthRadius
                 (js_log (js_div (js_add (Num 1) sn) (js_sub (Num 1) sn)))) (Num 2)\<rparr>)"

section \<open>Wrapping a number into a range\<close>

definition wrapNum :: "jsnum \<Rightarrow> jsnum \<times> jsnum \<Rightarrow> bool \<Rightarrow> jsnum" where
  "wrapNum v rng includeMax =
     (let mx = snd rng;
          mn = fst rng;
          d = js_sub mx mn
      in if js_eq v mx \<and> includeMax then v
         else js_add (js_rem (js_add (js_rem (js_sub v mn) d) d) d) mn)"

section \<open>Coordinate reference systems\<close>

text \<open>
  Of a CRS only the two wrap ranges are modelled; a range that the CRS does not define
  is \<open>None\<close>. \<open>Earth\<close> defines the longitude range and no latitude range.
\<close>

record CRS =
  wrapLng :: "(jsnum \<times> jsnum) option"
  wrapLat :: "(jsnum \<times> jsnum) option"

definition CRS_wrapLatLng :: "CRS \<Rightarrow> LatLng \<Rightarrow> error + LatLng" where
  "CRS_wrapLatLng crs latlng =
     (let lo = (case wrapLng crs of Some r \<Rightarrow> wrapNum (lng latlng) r True | None \<Rightarrow> lng latlng);
          la = (case wrapLat crs of Some r \<Rightarrow> wrapNum (lat latlng) r True | None \<Rightarrow> lat latlng);
          al = alt latlng
      in new_LatLng la lo al)"

definition Earth :: CRS where
  "Earth = \<lparr>wrapLng = Some (Num (- 180), Num 180), wrapLat = None\<rparr>"

section \<open>The map: zoom limits and the view\<close>

text \<open>
  The fields of the map that the zoom limit and the two getters read. \<open>any3d\<close> is the
  browser capability \<open>Browser.any3d\<close>. Of \<open>getCenter\<close> the part after the check needs the
  position of the map pane and the projection of the centre of the container; the
  model holds their results: \<open>paneMoved\<close> is the value of \<open>_moved()\<close> and
  \<open>viewCenter\<close> the value of \<open>layerPointToLatLng(_getCenterLayerPoint())\<close>.
\<close>

record Map =
  opt_center :: "LatLng option"
  opt_zoom :: "jsnum option"
  opt_minZoom :: "jsnum option"
  opt_maxZoom :: "jsnum option"
  zoomSnap :: jsnum
  any3d :: bool
  layersMinZoom :: "jsnum option"
  layersMaxZoom :: "jsnum option"
  map_loaded :: bool
  map_zoom :: "jsnum option"
  lastCenter :: "LatLng option"
  paneMoved :: bool
  viewCenter :: LatLng

definition getMinZoom :: "Map \<Rightarrow> jsnum" where
  "getMinZoom m =
     (case opt_minZoom m of
        None \<Rightarrow> (case layersMinZoom m of
                   Some v \<Rightarrow> if js_truthy v then v else Num 0
                 | None \<Rightarrow> Num 0)
      | Some v \<Rightarrow> v)"

definition getMaxZoom :: "Map \<Rightarrow> jsnum" where
  "getMaxZoom m =
     (case opt_maxZoom m of
        None \<Rightarrow> (case layersMaxZoom m of None \<Rightarrow> PosInf | Some v \<Rightarrow> v)
      | Some v \<Rightarrow> v)"

definition limitZoom :: "Map \<Rightarrow> jsnum \<Rightarrow> jsnum" where
  "limitZoom m z =
     (let mn = getMinZoom m;
          mx = getMaxZoom m;
          snap = (if any3d m then zoomSnap m else Num 1);
          z' = (if js_truthy snap then js_mul (js_round (js_div z snap)) snap else z)
      in js_max mn (js_min mx z'))"

definition checkIfLoaded :: "Map \<Rightarrow> error + unit" where
  "checkIfLoaded m = (if \<not> map_loaded m then Inl ViewNotSet else Inr ())"

definition getCenter :: "Map \<Rightarrow> error + LatLng" where
  "getCenter m =
     (case checkIfLoaded m of
        Inl e \<Rightarrow> Inl e
      | Inr _ \<Rightarrow>
          (case lastCenter m of
             Some c \<Rightarrow> if \<not> paneMoved m then Inr c else Inr (viewCenter m)
           | None \<Rightarrow> Inr (viewCenter m)))"

text \<open>\<open>getZoom\<close> returns the stored zoom, which is undefined (\<open>None\<close>) until one is set.\<close>

definition getZoom :: "Map \<Rightarrow> error + jsnum option" where
  "getZoom m = Inr (map_zoom m)"

text \<open>
  \<open>_resetView\<close> marks the view as loaded and stores the limited zoom and the centre
  (events and the pixel origin are left out). \<open>setView\<close> on a map that is not loaded,
  or with the \<open>reset\<close> option, limits the zoom and resets the view; the centre is
  passed on as it is, which is what \<open>_limitCenter\<close> does when no \<open>maxBounds\<close> is
  configured.
\<close>

definition resetView :: "Map \<Rightarrow> LatLng \<Rightarrow> jsnum \<Rightarrow> Map" where
  "resetView m c z =
     m\<lparr>map_loaded := True, map_zoom := Some (limitZoom m z), lastCenter := Some c,
       paneMoved := False\<rparr>"

definition setView_reset :: "Map \<Rightarrow> LatLng \<Rightarrow> jsnum \<Rightarrow> Map" where
  "setView_reset m c z = resetView m c (limitZoom m z)"

text \<open>
  The constructor: the view is not loaded; a zoom option is limited and stored; the
  view is set only when both a centre and a zoom are configured. Layers are added
  after that, so no layer limits the zoom yet.
\<close>

definition Map_initialize ::
  "LatLng option \<Rightarrow> jsnum option \<Rightarrow> jsnum option \<Rightarrow> jsnum option \<Rightarrow> jsnum \<Rightarrow> bool \<Rightarrow> LatLng \<Rightarrow> Map" where
  "Map_initialize oc oz omin omax snap cap3d vc =
     (let m0 = \<lparr>opt_center = oc, opt_zoom = oz, opt_minZoom = omin, opt_maxZoom = omax,
                zoomSnap = snap, any3d = cap3d, layersMinZoom = None, layersMaxZoom = None,
                map_loaded = False, map_zoom = None, lastCenter = None, paneMoved = False,
                viewCenter = vc\<rparr>;
          m1 = (case oz of Some z \<Rightarrow> m0\<lparr>map_zoom := Some (limitZoom m0 z)\<rparr> | None \<Rightarrow> m0)
      in case (oc, oz) of
           (Some c, Some z) \<Rightarrow> setView_reset m1 c z
         | _ \<Rightarrow> m1)"

section \<open>Tile coordinates and their keys\<close>

text \<open>
  A tile coordinate has three integer components. A key is written with
  \<open>Number.prototype.toString\<close>, which prints an integer in decimal with a leading minus
  sign when negative (the model prints every integer so; the language switches to an
  exponent from \<open>10^21\<close> on, and its numbers hold every integer only up to \<open>2^53\<close>),
  and read back with \<open>split\<close> and the unary plus. Of the unary plus
  the model covers the spellings of integers: the empty string (which is \<open>0\<close>) and an
  optional sign before decimal digits; every other string is \<open>None\<close>, standing for
  \<open>NaN\<close>, a fraction or a spelling that a key never holds.
\<close>

record TileCoord =
  tx :: int
  ty :: int
  tz :: int

definition digit_char :: "nat \<Rightarrow> char" where
  "digit_char n = ''0123456789'' ! n"

definition digit_val :: "char \<Rightarrow> nat option" where
  "digit_val c = map_of (zip ''0123456789'' [0..<10]) c"

fun nat_digits :: "nat \<Rightarrow> string" where
  "nat_digits n =
     (if n < 10 then [digit_char n] else nat_digits (n div 10) @ [digit_char (n mod 10)])"

declare nat_digits.simps [simp del]

definition Number_toString :: "int \<Rightarrow> string" where
  "Number_toString i =
     (if i < 0 then CHR ''-'' # nat_digits (nat (- i)) else nat_digits (nat i))"

fun parse_digits :: "nat \<Rightarrow> string \<Rightarrow> nat option" where
  "parse_digits acc [] = Some acc"
| "parse_digits acc (c # cs) =
     (case digit_val c of None \<Rightarrow> None | Some d \<Rightarrow> parse_digits (10 * acc + d) cs)"

definition parse_nat :: "string \<Rightarrow> nat option" where
  "parse_nat s = (if s = [] then None else parse_digits 0 s)"

definition String_toNumber :: "string \<Rightarrow> int option" where
  "String_toNumber s =
     (case s of
        [] \<Rightarrow> Some 0
      | c # cs \<Rightarrow>
          if c = CHR ''-'' then map_option (\<lambda>n. - int n) (parse_nat cs)
          else if c = CHR ''+'' then map_option int (parse_nat cs)
          else map_option int (parse_nat s))"

fun String_split :: "char \<Rightarrow> string \<Rightarrow> string list" where
  "String_split sep [] = [[]]"
| "String_split sep (c # cs) =
     (if c = sep then [] # String_split sep cs
      else (case String_split sep cs of
              p # ps \<Rightarrow> (c # p) # ps
            | [] \<Rightarrow> [[c]]))"

text \<open>Reading an array element; outside the array it is undefined, which is not a number.\<close>

definition part_toNumber :: "string list \<Rightarrow> nat \<Rightarrow> int option" where
  "part_toNumber k i = (if i < length k then String_toNumber (k ! i) else None)"

definition tileCoordsToKey :: "TileCoord \<Rightarrow> string" where
  "tileCoordsToKey c =
     Number_toString (tx c) @ '':'' @ Number_toString (ty c) @ '':'' @ Number_toString (tz c)"

definition keyToTileCoords :: "string \<Rightarrow> TileCoord option" where
  "keyToTileCoords key =
     (let k = String_split CHR '':'' key
      in case (part_toNumber k 0, part_toNumber k 1, part_toNumber k 2) of
           (Some a, Some b, Some c) \<Rightarrow> Some \<lparr>tx = a, ty = b, tz = c\<rparr>
         | _ \<Rightarrow> None)"

section \<open>The grid layer\<close>

text \<open>
  A tile of the layer: its coordinates and its flags. The flags \<open>active\<close> and \<open>retain\<close>
  are undefined on a new tile, which reads as false; \<open>loaded\<close> is a time stamp once the
  tile is ready. The element of the tile is an opaque handle and is left out.
\<close>

record Tile =
  coords :: TileCoord
  current :: bool
  active :: bool
  loaded :: "jsnum option"
  retain :: bool

definition is_loaded :: "Tile \<Rightarrow> bool" where
  "is_loaded t = (case loaded t of None \<Rightarrow> False | Some v \<Rightarrow> js_truthy v)"

datatype event =
    Loading
  | TileLoadStart TileCoord
  | TileUnload "TileCoord option"

datatype tileSizeOption = SizeNumber jsnum | SizePoint Point

text \<open>
  The layer: its options, the tiles by key in the order of their insertion (the order
  in which \<open>for (key in this._tiles)\<close> visits them), the tile zoom, the loading flag and
  the events fired so far. An option that is not configured is \<open>None\<close>. The tile zoom
  is undefined or an integer, as the coordinates of the tiles are: it is the rounded
  zoom of the map, the case of integer native zoom limits.
\<close>

record GridLayer =
  tileSize :: tileSizeOption
  keepBuffer :: jsnum
  minZoom :: "jsnum option"
  maxZoom :: "jsnum option"
  minNativeZoom :: "jsnum option"
  maxNativeZoom :: "jsnum option"
  tiles :: "(string \<times> Tile) list"
  tileZoom :: "int option"
  loading :: bool
  fired :: "event list"

definition getTileSize :: "GridLayer \<Rightarrow> Point" where
  "getTileSize layer =
     (case tileSize layer of SizePoint p \<Rightarrow> p | SizeNumber s \<Rightarrow> \<lparr>px = s, py = s\<rparr>)"

definition pxBoundsToTileRange :: "GridLayer \<Rightarrow> Bounds \<Rightarrow> Bounds" where
  "pxBoundsToTileRange layer bounds =
     (let ts = getTileSize layer
      in new_Bounds
           (Point_floor (Point_unscaleBy (bmin bounds) ts))
           (Point_subtract (Point_ceil (Point_unscaleBy (bmax bounds) ts))
              \<lparr>px = Num 1, py = Num 1\<rparr>))"

text \<open>
  Tile coordinates as \<open>_wrapCoords\<close> takes them: a point with a zoom attached, each
  component a number. The wrap ranges \<open>_wrapX\<close> and \<open>_wrapY\<close> are \<open>None\<close> on an axis that
  does not wrap.
\<close>

record Coords =
  cx :: jsnum
  cy :: jsnum
  cz :: jsnum

definition wrapCoords ::
  "(jsnum \<times> jsnum) option \<Rightarrow> (jsnum \<times> jsnum) option \<Rightarrow> Coords \<Rightarrow> Coords" where
  "wrapCoords wrapX wrapY c =
     \<lparr>cx = (case wrapX of Some r \<Rightarrow> wrapNum (cx c) r False | None \<Rightarrow> cx c),
      cy = (case wrapY of Some r \<Rightarrow> wrapNum (cy c) r False | None \<Rightarrow> cy c),
      cz = cz c\<rparr>"

definition toCoords :: "TileCoord \<Rightarrow> Coords" where
  "toCoords c = \<lparr>cx = Num (of_int (tx c)), cy = Num (of_int (ty c)), cz = Num (of_int (tz c))\<rparr>"

text \<open>The layer with the default options of \<open>GridLayer\<close>, before any tile is added.\<close>

definition defaultLayer :: GridLayer where
  "defaultLayer =
     \<lparr>tileSize = SizeNumber (Num 256), keepBuffer = Num 2, minZoom = Some (Num 0),
      maxZoom = None, minNativeZoom = None, maxNativeZoom = None, tiles = [],
      tileZoom = None, loading = False, fired = []\<rparr>"

section \<open>The specification's formulas\<close>

text \<open>
  The tile range as the specification words it: \<open>floor(min / tileSize)\<close> to
  \<open>ceil(max / tileSize) - 1\<close>, per axis.
\<close>

definition tileRange_spec :: "Point \<Rightarrow> Bounds \<Rightarrow> Bounds" where
  "tileRange_spec ts b =
     \<lparr>bmin = \<lparr>px = js_floor (js_div (px (bmin b)) (px ts)),
              py = js_floor (js_div (py (bmin b)) (py ts))\<rparr>,
      bmax = \<lparr>px = js_sub (js_ceil (js_div (px (bmax b)) (px ts))) (Num 1),
              py = js_sub (js_ceil (js_div (py (bmax b)) (py ts))) (Num 1)\<rparr>\<rparr>"

text \<open>
  The zoom limit as the specification words it: clamp to the limits, then snap to the
  increment when it is nonzero.
\<close>

definition clamp_spec :: "jsnum \<Rightarrow> jsnum \<Rightarrow> jsnum \<Rightarrow> jsnum" where
  "clamp_spec z lo hi = js_max lo (js_min hi z)"

definition snap_spec :: "jsnum \<Rightarrow> jsnum \<Rightarrow> jsnum" where
  "snap_spec z s = (if js_truthy s then js_mul (js_round (js_div z s)) s else z)"

definition limitZoom_spec :: "Map \<Rightarrow> jsnum \<Rightarrow> jsnum" where
  "limitZoom_spec m z = snap_spec (clamp_spec z (getMinZoom m) (getMaxZoom m)) (zoomSnap m)"

section \<open>Pruning tiles\<close>

type_synonym tilemap = "(string \<times> Tile) list"

text \<open>
  \<open>this._tiles[key]\<close> is \<open>map_of\<close>. The two tests of \<open>_retainParent\<close> and
  \<open>_retainChildren\<close>, \<open>tile && tile.active\<close> and \<open>tile && tile.loaded\<close>:
\<close>

definition tile_active :: "tilemap \<Rightarrow> string \<Rightarrow> bool" where
  "tile_active ts key = (case map_of ts key of None \<Rightarrow> False | Some t \<Rightarrow> active t)"

definition tile_loaded :: "tilemap \<Rightarrow> string \<Rightarrow> bool" where
  "tile_loaded ts key = (case map_of ts key of None \<Rightarrow> False | Some t \<Rightarrow> is_loaded t)"

text \<open>\<open>tile.retain = true\<close> on the tile stored under a key.\<close>

definition set_retain :: "string \<Rightarrow> tilemap \<Rightarrow> tilemap" where
  "set_retain key ts = map (\<lambda>(k, t). if k = key then (k, t\<lparr>retain := True\<rparr>) else (k, t)) ts"

text \<open>
  \<open>_retainParent\<close>: \<open>Math.floor(x / 2)\<close> on an integer is \<open>x div 2\<close>. The result is the
  returned flag and the tiles with the marks set.
\<close>

function retainParent :: "tilemap \<Rightarrow> int \<Rightarrow> int \<Rightarrow> int \<Rightarrow> int \<Rightarrow> bool \<times> tilemap" where
  "retainParent ts x y z minZ =
     (let x2 = x div 2;
          y2 = y div 2;
          z2 = z - 1;
          key = tileCoordsToKey \<lparr>tx = x2, ty = y2, tz = z2\<rparr>
      in if tile_active ts key then (True, set_retain key ts)
         else (let ts' = (if tile_loaded ts key then set_retain key ts else ts)
               in if z2 > minZ then retainParent ts' x2 y2 z2 minZ else (False, ts')))"
  by pat_completeness auto
termination
  by (relation "measure (\<lambda>(ts, x, y, z, minZ). nat (z - minZ))") auto

declare retainParent.simps [simp del]

text \<open>
  \<open>_retainChildren\<close>: the two nested loops visit the four children in the order
  \<open>(2x, 2y)\<close>, \<open>(2x, 2y + 1)\<close>, \<open>(2x + 1, 2y)\<close>, \<open>(2x + 1, 2y + 1)\<close>.
\<close>

function retainChildren :: "tilemap \<Rightarrow> int \<Rightarrow> int \<Rightarrow> int \<Rightarrow> int \<Rightarrow> tilemap" where
  "retainChildren ts x y z maxZ =
     fold (\<lambda>ij ts.
        (let i = fst ij;
             j = snd ij;
             key = tileCoordsToKey \<lparr>tx = i, ty = j, tz = z + 1\<rparr>
         in if tile_active ts key then set_retain key ts
            else (let ts' = (if tile_loaded ts key then set_retain key ts else ts)
                  in if z + 1 < maxZ then retainChildren ts' i j (z + 1) maxZ else ts')))
       [(2 * x, 2 * y), (2 * x, 2 * y + 1), (2 * x + 1, 2 * y), (2 * x + 1, 2 * y + 1)] ts"
  by pat_completeness auto
termination
  by (relation "measure (\<lambda>(ts, x, y, z, maxZ). nat (maxZ - z))") auto

declare retainChildren.simps [simp del]

text \<open>
  \<open>_removeTile\<close>: a key that is not tracked is ignored; otherwise the entry is deleted
  and \<open>tileunload\<close> fires with the coordinates decoded from the key.
\<close>

definition removeTile :: "string \<Rightarrow> GridLayer \<Rightarrow> GridLayer" where
  "removeTile key layer =
     (case map_of (tiles layer) key of
        None \<Rightarrow> layer
      | Some t \<Rightarrow>
          layer\<lparr>tiles := filter (\<lambda>(k, t). k \<noteq> key) (tiles layer),
                fired := fired layer @ [TileUnload (keyToTileCoords key)]\<rparr>)"

definition removeAllTiles :: "GridLayer \<Rightarrow> GridLayer" where
  "removeAllTiles layer = fold removeTile (map fst (tiles layer)) layer"

text \<open>A comparison with an undefined operand is false.\<close>

definition opt_gt :: "jsnum option \<Rightarrow> jsnum option \<Rightarrow> bool" where
  "opt_gt a b = (case (a, b) of (Some u, Some v) \<Rightarrow> js_gt u v | _ \<Rightarrow> False)"

definition opt_lt :: "jsnum option \<Rightarrow> jsnum option \<Rightarrow> bool" where
  "opt_lt a b = (case (a, b) of (Some u, Some v) \<Rightarrow> js_lt u v | _ \<Rightarrow> False)"

text \<open>The body of the second loop of \<open>_pruneTiles\<close>, for one key.\<close>

definition retain_step :: "string \<Rightarrow> tilemap \<Rightarrow> tilemap" where
  "retain_step key ts =
     (case map_of ts key of
        None \<Rightarrow> ts
      | Some tile \<Rightarrow>
          if current tile \<and> \<not> active tile then
            (let c = coords tile;
                 r = retainParent ts (tx c) (ty c) (tz c) (tz c - 5)
             in if \<not> fst r then retainChildren (snd r) (tx c) (ty c) (tz c) (tz c + 2)
                else snd r)
          else ts)"

text \<open>The body of the third loop, for one key.\<close>

definition prune_step :: "string \<Rightarrow> GridLayer \<Rightarrow> GridLayer" where
  "prune_step key layer =
     (case map_of (tiles layer) key of
        None \<Rightarrow> layer
      | Some tile \<Rightarrow> if \<not> retain tile then removeTile key layer else layer)"

text \<open>
  \<open>_pruneTiles\<close>. The map is \<open>None\<close> when the layer is on no map; its \<open>getZoom()\<close> is
  the stored zoom. Each loop visits the keys that the object holds when the loop
  starts; the first two loops delete none.
\<close>

definition pruneTiles :: "GridLayer \<Rightarrow> Map option \<Rightarrow> GridLayer" where
  "pruneTiles layer mp =
     (case mp of
        None \<Rightarrow> layer
      | Some m \<Rightarrow>
          (let zoom = map_zoom m
           in if opt_gt zoom (maxZoom layer) \<or> opt_lt zoom (minZoom layer)
              then removeAllTiles layer
              else (let ts1 = map (\<lambda>(k, t). (k, t\<lparr>retain := current t\<rparr>)) (tiles layer);
                        ts2 = fold retain_step (map fst ts1) ts1
                    in fold prune_step (map fst ts2) (layer\<lparr>tiles := ts2\<rparr>))))"

section \<open>A layer during a zoom-in\<close>

text \<open>
  The tile \<open>0:0:3\<close> is current and not loaded yet; its ancestors \<open>0:0:2\<close> and \<open>0:0:1\<close> are
  loaded and still fading in; the tile \<open>5:5:3\<close> has left the view. The map is at zoom 3.
\<close>

definition zoomingLayer :: GridLayer where
  "zoomingLayer = defaultLayer
     \<lparr>tiles :=
        [(''0:0:3'', \<lparr>coords = \<lparr>tx = 0, ty = 0, tz = 3\<rparr>, current = True, active = False,
                      loaded = None, retain = False\<rparr>),
         (''0:0:2'', \<lparr>coords = \<lparr>tx = 0, ty = 0, tz = 2\<rparr>, current = False, active = False,
                      loaded = Some (Num 1000), retain = False\<rparr>),
         (''0:0:1'', \<lparr>coords = \<lparr>tx = 0, ty = 0, tz = 1\<rparr>, current = False, active = False,
                      loaded = Some (Num 1000), retain = False\<rparr>),
         (''5:5:3'', \<lparr>coords = \<lparr>tx = 5, ty = 5, tz = 3\<rparr>, current = False, active = True,
                      loaded = Some (Num 1000), retain = False\<rparr>)],
      tileZoom := Some 3\<rparr>"

definition zoomingMap :: Map where
  "zoomingMap = Map_initialize (Some \<lparr>lat = Num 0, lng = Num 0, alt = None\<rparr>) (Some (Num 3))
     None None (Num 1) True \<lparr>lat = Num 0, lng = Num 0, alt = None\<rparr>"

section \<open>Updating the visible tiles\<close>

definition Point_divideBy :: "Point \<Rightarrow> jsnum \<Rightarrow> Point" where
  "Point_divideBy p n = \<lparr>px = js_div (px p) n, py = js_div (py p) n\<rparr>"

fun js_sqrt :: "jsnum \<Rightarrow> jsnum" where
  "js_sqrt (Num a) = (if a < 0 then NaN else Num (sqrt a))"
| "js_sqrt PosInf = PosInf"
| "js_sqrt _ = NaN"

definition Point_distanceTo :: "Point \<Rightarrow> Point \<Rightarrow> jsnum" where
  "Point_distanceTo this p =
     (let dx = js_sub (px p) (px this);
          dy = js_sub (py p) (py this)
      in js_sqrt (js_add (js_mul dx dx) (js_mul dy dy)))"

text \<open>An undefined value in a numeric place reads as \<open>NaN\<close>.\<close>

definition to_number :: "jsnum option \<Rightarrow> jsnum" where
  "to_number v = (case v of None \<Rightarrow> NaN | Some n \<Rightarrow> n)"

text \<open>
  What \<open>_update\<close> reads of the map and of the layer's collaborators: the map itself,
  the state of a zoom animation, the size of the container, the map's methods
  \<open>project\<close> and \<open>getZoomScale\<close> (they depend on the CRS configured), the layer's
  \<open>_isValidTile\<close> (it depends on the CRS and on the bounds option) and its \<open>_setView\<close>,
  which resets the grid.
\<close>

record UpdateEnv =
  the_map :: Map
  animatingZoom :: bool
  animateToZoom :: jsnum
  map_size :: Point
  map_project :: "LatLng \<Rightarrow> int \<Rightarrow> Point"
  map_getZoomScale :: "jsnum \<Rightarrow> int \<Rightarrow> jsnum"
  isValidTile :: "TileCoord \<Rightarrow> bool"
  setView :: "GridLayer \<Rightarrow> LatLng \<Rightarrow> jsnum \<Rightarrow> GridLayer \<times> error option"

definition clampZoom :: "GridLayer \<Rightarrow> jsnum \<Rightarrow> jsnum" where
  "clampZoom layer z =
     (case minNativeZoom layer of
        Some mn \<Rightarrow>
          if js_lt z mn then mn
          else (case maxNativeZoom layer of
                  Some mx \<Rightarrow> if js_lt mx z then mx else z
                | None \<Rightarrow> z)
      | None \<Rightarrow>
          (case maxNativeZoom layer of
             Some mx \<Rightarrow> if js_lt mx z then mx else z
           | None \<Rightarrow> z))"

definition getTiledPixelBounds :: "GridLayer \<Rightarrow> UpdateEnv \<Rightarrow> LatLng \<Rightarrow> int \<Rightarrow> Bounds" where
  "getTiledPixelBounds layer env center tz0 =
     (let z = to_number (map_zoom (the_map env));
          mapZoom = (if animatingZoom env then js_max (animateToZoom env) z else z);
          scale = map_getZoomScale env mapZoom tz0;
          pixelCenter = Point_floor (map_project env center tz0);
          halfSize = Point_divideBy (map_size env) (js_mul scale (Num 2))
      in new_Bounds (Point_subtract pixelCenter halfSize) (Point_add pixelCenter halfSize))"

text \<open>
  The values of a loop \<open>for (let i = lo; i <= hi; i++)\<close> over a finite tile range, whose
  bounds are integers. (The loops run only after the range was found finite.)
\<close>

fun loop_values :: "jsnum \<Rightarrow> jsnum \<Rightarrow> int list" where
  "loop_values (Num lo) (Num hi) = [\<lfloor>lo\<rfloor>..\<lfloor>hi\<rfloor>]"
| "loop_values _ _ = []"

text \<open>\<open>tile.current = true\<close> and \<open>this._tiles[key] = tile\<close>.\<close>

definition set_current :: "string \<Rightarrow> tilemap \<Rightarrow> tilemap" where
  "set_current key ts = map (\<lambda>(k, t). if k = key then (k, t\<lparr>current := True\<rparr>) else (k, t)) ts"

fun put_tile :: "string \<Rightarrow> Tile \<Rightarrow> tilemap \<Rightarrow> tilemap" where
  "put_tile key v [] = [(key, v)]"
| "put_tile key v ((k, t) # r) = (if k = key then (key, v) # r else (k, t) # put_tile key v r)"

text \<open>The body of the two nested loops over the tile range, for one coordinate.\<close>

definition visit_tile ::
  "UpdateEnv \<Rightarrow> TileCoord \<Rightarrow> GridLayer \<times> TileCoord list \<Rightarrow> GridLayer \<times> TileCoord list" where
  "visit_tile env c s =
     (let layer = fst s;
          queue = snd s
      in if \<not> isValidTile env c then s
         else (case map_of (tiles layer) (tileCoordsToKey c) of
                 Some t \<Rightarrow> (layer\<lparr>tiles := set_current (tileCoordsToKey c) (tiles layer)\<rparr>, queue)
               | None \<Rightarrow> (layer, queue @ [c])))"

text \<open>
  \<open>queue.sort(compare)\<close>, as a stable insertion sort: an element goes before the first
  one that does not compare below it.
\<close>

fun insert_sorted :: "('a \<Rightarrow> 'a \<Rightarrow> jsnum) \<Rightarrow> 'a \<Rightarrow> 'a list \<Rightarrow> 'a list" where
  "insert_sorted cmp a [] = [a]"
| "insert_sorted cmp a (b # bs) =
     (if js_lt (cmp b a) (Num 0) then b # insert_sorted cmp a bs else a # b # bs)"

definition Array_sort :: "('a \<Rightarrow> 'a \<Rightarrow> jsnum) \<Rightarrow> 'a list \<Rightarrow> 'a list" where
  "Array_sort cmp xs = foldr (insert_sorted cmp) xs []"

definition coordsPoint :: "TileCoord \<Rightarrow> Point" where
  "coordsPoint c = \<lparr>px = Num (of_int (tx c)), py = Num (of_int (ty c))\<rparr>"

text \<open>\<open>_addTile\<close>: the new tile is stored as current, and \<open>tileloadstart\<close> fires.\<close>

definition addTile :: "TileCoord \<Rightarrow> GridLayer \<Rightarrow> GridLayer" where
  "addTile c layer =
     layer\<lparr>tiles := put_tile (tileCoordsToKey c)
                \<lparr>coords = c, current = True, active = False, loaded = None, retain = False\<rparr>
                (tiles layer),
           fired := fired layer @ [TileLoadStart c]\<rparr>"

text \<open>
  \<open>_update\<close>. The result is the layer as the pass leaves it and the error raised, if
  any: an exception keeps whatever was changed before it.
\<close>

definition update :: "GridLayer \<Rightarrow> UpdateEnv option \<Rightarrow> LatLng option \<Rightarrow> GridLayer \<times> error option" where
  "update layer mp centerArg =
     (case mp of
        None \<Rightarrow> (layer, None)
      | Some env \<Rightarrow>
          (let zoom = clampZoom layer (to_number (map_zoom (the_map env)))
           in case (case centerArg of None \<Rightarrow> getCenter (the_map env) | Some c \<Rightarrow> Inr c) of
                Inl e \<Rightarrow> (layer, Some e)
              | Inr center \<Rightarrow>
                  (case tileZoom layer of
                     None \<Rightarrow> (layer, None)
                   | Some tz0 \<Rightarrow>
                       (let pixelBounds = getTiledPixelBounds layer env center tz0;
                            tileRange = pxBoundsToTileRange layer pixelBounds;
                            tileCenter = Bounds_getCenter tileRange;
                            margin = keepBuffer layer;
                            noPruneRange = new_Bounds
                              (Point_subtract (Bounds_getBottomLeft tileRange)
                                 \<lparr>px = margin, py = js_neg margin\<rparr>)
                              (Point_add (Bounds_getTopRight tileRange)
                                 \<lparr>px = margin, py = js_neg margin\<rparr>)
                        in if \<not> (isFinite (px (bmin tileRange)) \<and> isFinite (py (bmin tileRange)) \<and>
                                  isFinite (px (bmax tileRange)) \<and> isFinite (py (bmax tileRange)))
                           then (layer, Some InfiniteTiles)
                           else (let l1 = layer\<lparr>tiles :=
                                        map (\<lambda>(k, t).
                                          if tz (coords t) \<noteq> tz0 \<or>
                                             \<not> Bounds_contains noPruneRange (coordsPoint (coords t))
                                          then (k, t\<lparr>current := False\<rparr>) else (k, t))
                                          (tiles layer)\<rparr>
                                 in if js_gt (js_abs (js_sub zoom (Num (of_int tz0)))) (Num 1)
                                    then setView env l1 center zoom
                                    else (let s = fold (\<lambda>j. fold (\<lambda>i.
                                                  visit_tile env \<lparr>tx = i, ty = j, tz = tz0\<rparr>)
                                                  (loop_values (px (bmin tileRange)) (px (bmax tileRange))))
                                                (loop_values (py (bmin tileRange)) (py (bmax tileRange)))
                                                (l1, []);
                                              l2 = fst s;
                                              queue = Array_sort (\<lambda>a b.
                                                js_sub (Point_distanceTo (coordsPoint a) tileCenter)
                                                       (Point_distanceTo (coordsPoint b) tileCenter))
                                                (snd s)
                                          in if queue \<noteq> []
                                             then (let l3 = (if \<not> loading l2
                                                             then l2\<lparr>loading := True,
                                                                    fired := fired l2 @ [Loading]\<rparr>
                                                             else l2)
                                                   in (fold addTile queue l3, None))
                                             else (l2, None)))))))"

text \<open>
  A layer whose tile size was configured as 0, and what the pass reads of the map: the
  centre projects to the pixel \<open>(1024, 1024)\<close> and the container is 800 by 600 pixels.
\<close>

definition brokenLayer :: GridLayer where
  "brokenLayer = zoomingLayer\<lparr>tileSize := SizeNumber (Num 0)\<rparr>"

definition zoomingEnv :: UpdateEnv where
  "zoomingEnv =
     \<lparr>the_map = zoomingMap, animatingZoom = False, animateToZoom = Num 3,
      map_size = \<lparr>px = Num 800, py = Num 600\<rparr>,
      map_project = (\<lambda>c z. \<lparr>px = Num 1024, py = Num 1024\<rparr>),
      map_getZoomScale = (\<lambda>z t. Num 1),
      isValidTile = (\<lambda>c. True),
      setView = (\<lambda>layer c z. (layer, None))\<rparr>"

text \<open>The same map in a container of 50 by 50 pixels, the centre at the pixel \<open>(1100, 1100)\<close>.\<close>

definition smallEnv :: UpdateEnv where
  "smallEnv =
     zoomingEnv\<lparr>map_size := \<lparr>px = Num 50, py = Num 50\<rparr>,
                map_project := (\<lambda>c z. \<lparr>px = Num 1100, py = Num 1100\<rparr>)\<rparr>"

section \<open>The retention rules\<close>

text \<open>The ancestor of a tile coordinate \<open>n\<close> zoom levels up, and its four children.\<close>

definition ancestor :: "TileCoord \<Rightarrow> nat \<Rightarrow> TileCoord" where
  "ancestor c n = \<lparr>tx = tx c div 2 ^ n, ty = ty c div 2 ^ n, tz = tz c - int n\<rparr>"

definition children :: "TileCoord \<Rightarrow> TileCoord list" where
  "children c =
     [\<lparr>tx = 2 * tx c, ty = 2 * ty c, tz = tz c + 1\<rparr>,
      \<lparr>tx = 2 * tx c, ty = 2 * ty c + 1, tz = tz c + 1\<rparr>,
      \<lparr>tx = 2 * tx c + 1, ty = 2 * ty c, tz = tz c + 1\<rparr>,
      \<lparr>tx = 2 * tx c + 1, ty = 2 * ty c + 1, tz = tz c + 1\<rparr>]"

text \<open>
  The rules as the code applies them for a current tile at \<open>c\<close> that is not active.
  An ancestor at most 5 levels up is kept when it is active or loaded and no ancestor
  closer to \<open>c\<close> is active. When no ancestor within 5 levels is active, a child is kept
  when it is active or loaded, and so is a grandchild whose parent is not active.
\<close>

definition kept_as_parent :: "tilemap \<Rightarrow> TileCoord \<Rightarrow> string \<Rightarrow> bool" where
  "kept_as_parent ts c k =
     list_ex (\<lambda>n. k = tileCoordsToKey (ancestor c n) \<and>
                  (tile_active ts k \<or> tile_loaded ts k) \<and>
                  list_all (\<lambda>m. \<not> tile_active ts (tileCoordsToKey (ancestor c m))) [1..<n])
       [1..<6]"

definition has_active_parent :: "tilemap \<Rightarrow> TileCoord \<Rightarrow> bool" where
  "has_active_parent ts c =
     list_ex (\<lambda>n. tile_active ts (tileCoordsToKey (ancestor c n))) [1..<6]"

definition kept_as_child :: "tilemap \<Rightarrow> TileCoord \<Rightarrow> string \<Rightarrow> bool" where
  "kept_as_child ts c k =
     list_ex (\<lambda>c1.
        (k = tileCoordsToKey c1 \<and> (tile_active ts k \<or> tile_loaded ts k)) \<or>
        (\<not> tile_active ts (tileCoordsToKey c1) \<and>
         list_ex (\<lambda>c2. k = tileCoordsToKey c2 \<and> (tile_active ts k \<or> tile_loaded ts k))
           (children c1)))
       (children c)"

definition protected :: "tilemap \<Rightarrow> string \<Rightarrow> bool" where
  "protected ts k =
     (case map_of ts k of
        None \<Rightarrow> False
      | Some t \<Rightarrow>
          current t \<or>
          list_ex (\<lambda>(k', t'). current t' \<and> \<not> active t' \<and>
                     (kept_as_parent ts (coords t') k \<or>
                      (\<not> has_active_parent ts (coords t') \<and> kept_as_child ts (coords t') k)))
            ts)"

text \<open>
  The rules as the specification words them: the closest loaded ancestor within 5
  levels; or, failing an active ancestor, a loaded or active descendant within 2
  levels.
\<close>

definition closest_loaded_ancestor_spec :: "tilemap \<Rightarrow> TileCoord \<Rightarrow> string \<Rightarrow> bool" where
  "closest_loaded_ancestor_spec ts c k =
     list_ex (\<lambda>n. k = tileCoordsToKey (ancestor c n) \<and> tile_loaded ts k \<and>
                  list_all (\<lambda>m. \<not> tile_loaded ts (tileCoordsToKey (ancestor c m))) [1..<n])
       [1..<6]"

definition descendant_spec :: "tilemap \<Rightarrow> TileCoord \<Rightarrow> string \<Rightarrow> bool" where
  "descendant_spec ts c k =
     ((tile_active ts k \<or> tile_loaded ts k) \<and>
      list_ex (\<lambda>c1. k = tileCoordsToKey c1 \<or>
                 list_ex (\<lambda>c2. k = tileCoordsToKey c2) (children c1))
        (children c))"

definition protected_spec :: "tilemap \<Rightarrow> string \<Rightarrow> bool" where
  "protected_spec ts k =
     (case map_of ts k of
        None \<Rightarrow> False
      | Some t \<Rightarrow>
          current t \<or>
          list_ex (\<lambda>(k', t'). current t' \<and> \<not> active t' \<and>
                     (closest_loaded_ancestor_spec ts (coords t') k \<or>
                      (\<not> has_active_parent ts (coords t') \<and> descendant_spec ts (coords t') k)))
            ts)"

section \<open>Sets of marked keys\<close>

text \<open>
  What the prune pass does to the tiles, as sets of keys: \<open>mark S\<close> sets the \<open>retain\<close>
  flag of the tiles whose key is in \<open>S\<close>. \<open>pset\<close> and \<open>pfound\<close> are the keys marked and
  the flag returned by a search of \<open>n\<close> levels up, \<open>cset\<close> the keys marked by a search of
  \<open>n\<close> levels down, given which keys hold an active tile and which a loaded one.
\<close>

definition mark :: "string set \<Rightarrow> tilemap \<Rightarrow> tilemap" where
  "mark S ts = map (\<lambda>(k, t). (k, if k \<in> S then t\<lparr>retain := True\<rparr> else t)) ts"

definition anc_key :: "int \<Rightarrow> int \<Rightarrow> int \<Rightarrow> nat \<Rightarrow> string" where
  "anc_key x y z n = tileCoordsToKey \<lparr>tx = x div 2 ^ n, ty = y div 2 ^ n, tz = z - int n\<rparr>"

primrec pset :: "(string \<Rightarrow> bool) \<Rightarrow> (string \<Rightarrow> bool) \<Rightarrow> nat \<Rightarrow> int \<Rightarrow> int \<Rightarrow> int \<Rightarrow> string set" where
  "pset A Ld 0 x y z = {}"
| "pset A Ld (Suc n) x y z =
     (if A (anc_key x y z (Suc 0)) then {anc_key x y z (Suc 0)}
      else (if Ld (anc_key x y z (Suc 0)) then {anc_key x y z (Suc 0)} else {}) \<union>
           pset A Ld n (x div 2) (y div 2) (z - 1))"

primrec pfound :: "(string \<Rightarrow> bool) \<Rightarrow> nat \<Rightarrow> int \<Rightarrow> int \<Rightarrow> int \<Rightarrow> bool" where
  "pfound A 0 x y z = False"
| "pfound A (Suc n) x y z = (A (anc_key x y z (Suc 0)) \<or> pfound A n (x div 2) (y div 2) (z - 1))"

definition cmark :: "(string \<Rightarrow> bool) \<Rightarrow> (string \<Rightarrow> bool) \<Rightarrow> string \<Rightarrow> string set" where
  "cmark A Ld k = (if A k \<or> Ld k then {k} else {})"

primrec cset :: "(string \<Rightarrow> bool) \<Rightarrow> (string \<Rightarrow> bool) \<Rightarrow> nat \<Rightarrow> TileCoord \<Rightarrow> string set" where
  "cset A Ld 0 c = {}"
| "cset A Ld (Suc n) c =
     (\<Union>c1 \<in> set (children c).
        cmark A Ld (tileCoordsToKey c1) \<union>
        (if A (tileCoordsToKey c1) then {} else cset A Ld n c1))"

definition retain_set :: "tilemap \<Rightarrow> string \<Rightarrow> string set" where
  "retain_set ts key =
     (case map_of ts key of
        None \<Rightarrow> {}
      | Some t \<Rightarrow>
          if current t \<and> \<not> active t then
            pset (tile_active ts) (tile_loaded ts) 5 (tx (coords t)) (ty (coords t)) (tz (coords t)) \<union>
            (if \<not> pfound (tile_active ts) 5 (tx (coords t)) (ty (coords t)) (tz (coords t))
             then cset (tile_active ts) (tile_loaded ts) 2 (coords t) else {})
          else {})"

definition reset_retain :: "tilemap \<Rightarrow> tilemap" where
  "reset_retain ts = map (\<lambda>(k, t). (k, t\<lparr>retain := current t\<rparr>)) ts"

text \<open>A wrap range that wraps: absent, or two finite bounds that differ.\<close>

definition proper_range :: "(jsnum \<times> jsnum) option \<Rightarrow> bool" where
  "proper_range r =
     (case r of None \<Rightarrow> True | Some (mn, mx) \<Rightarrow> isFinite mn \<and> isFinite mx \<and> mx \<noteq> mn)"

section \<open>Construction of a geographic coordinate\<close>




section \<open>Latitude clamp of the projection\<close>

lemma clamp_upper:
  assumes "js_le MAX_LATITUDE la"
  shows "js_max (js_min MAX_LATITUDE la) (js_neg MAX_LATITUDE) = MAX_LATITUDE"
  using assms
  by (cases la) (auto simp: MAX_LATITUDE_def js_min_def js_max_def js_le_def js_eq_def)

lemma clamp_lower:
  assumes "js_le la (js_neg MAX_LATITUDE)"
  shows "js_max (js_min MAX_LATITUDE la) (js_neg MAX_LATITUDE) = js_neg MAX_LATITUDE"
  using assms
  by (cases la) (auto simp: MAX_LATITUDE_def js_min_def js_max_def js_le_def js_eq_def)

lemma clamp_fixed:
  "js_max (js_min MAX_LATITUDE MAX_LATITUDE) (js_neg MAX_LATITUDE) = MAX_LATITUDE"
  "js_max (js_min MAX_LATITUDE (js_neg MAX_LATITUDE)) (js_neg MAX_LATITUDE) =
     js_neg MAX_LATITUDE"
  by (simp_all add: MAX_LATITUDE_def js_min_def js_max_def)

lemma js_min_Num: "js_min (Num a) (Num b) = Num (min b a)"
  by (auto simp: js_min_def)

lemma js_max_Num: "js_max (Num a) (Num b) = Num (max b a)"
  by (auto simp: js_max_def)

lemma clamp_angle:
  fixes c :: real
  assumes "- 85.0511287798 \<le> c" "c \<le> 85.0511287798"
  shows "- (pi / 2) < c * (pi / 180)" "c * (pi / 180) < pi / 2"
proof -
  have p: "0 < pi / 180" by simp
  have "c * (pi / 180) \<le> 85.0511287798 * (pi / 180)"
    using assms(2) p by (simp only: mult_right_mono less_imp_le)
  moreover have "85.0511287798 * (pi / 180) < pi / 2"
    using pi_gt_zero by simp
  ultimately show "c * (pi / 180) < pi / 2" by linarith
  have "- 85.0511287798 * (pi / 180) \<le> c * (pi / 180)"
    using assms(1) p by (simp only: mult_right_mono less_imp_le)
  moreover have "- (pi / 2) < - 85.0511287798 * (pi / 180)"
    using pi_gt_zero by simp
  ultimately show "- (pi / 2) < c * (pi / 180)" by linarith
qed

lemma sin_clamped:
  fixes c :: real
  assumes "- 85.0511287798 \<le> c" "c \<le> 85.0511287798"
  shows "- 1 < sin (c * (pi / 180))" "sin (c * (pi / 180)) < 1"
proof -
  note a = clamp_angle [OF assms]
  have "sin (c * (pi / 180)) < sin (pi / 2)"
    using a by (intro sin_monotone_2pi) simp_all
  then show "sin (c * (pi / 180)) < 1" by simp
  have "sin (- (pi / 2)) < sin (c * (pi / 180))"
    using a by (intro sin_monotone_2pi) simp_all
  then show "- 1 < sin (c * (pi / 180))" by simp
qed

lemma project_finite:
  "SphericalMercator_project \<lparr>lat = Num a, lng = Num l, alt = al\<rparr> =
     \<lparr>px = Num (6378137 * l * (pi / 180)),
      py = Num (6378137 *
             ln ((1 + sin (max (min 85.0511287798 a) (- 85.0511287798) * (pi / 180))) /
                 (1 - sin (max (min 85.0511287798 a) (- 85.0511287798) * (pi / 180)))) / 2)\<rparr>"
proof -
  define c :: real where "c = max (min 85.0511287798 a) (- 85.0511287798)"
  have b: "- 85.0511287798 \<le> c" "c \<le> 85.0511287798" by (simp_all add: c_def)
  note s = sin_clamped [OF b]
  have d: "1 - sin (c * (pi / 180)) \<noteq> 0" "1 + sin (c * (pi / 180)) \<noteq> 0"
    using s by linarith+
  have r: "0 < (1 + sin (c * (pi / 180))) / (1 - sin (c * (pi / 180)))"
    using s by simp
  have cl: "js_max (js_min MAX_LATITUDE (Num a)) (js_neg MAX_LATITUDE) = Num c"
    by (simp add: MAX_LATITUDE_def js_min_Num js_max_Num c_def max.commute min.commute)
  show ?thesis
    unfolding c_def [symmetric]
    using d r
    by (simp add: SphericalMercator_project_def cl earthRadius_def js_sub_def)
qed

lemma mercator_y:
  "py (SphericalMercator_project \<lparr>lat = Num a, lng = lo, alt = al\<rparr>) =
     Num (6378137 *
            ln ((1 + sin (max (min 85.0511287798 a) (- 85.0511287798) * (pi / 180))) /
                (1 - sin (max (min 85.0511287798 a) (- 85.0511287798) * (pi / 180)))) / 2)"
proof -
  have "py (SphericalMercator_project \<lparr>lat = Num a, lng = lo, alt = al\<rparr>) =
      py (SphericalMercator_project \<lparr>lat = Num a, lng = Num 0, alt = al\<rparr>)"
    by (simp add: SphericalMercator_project_def Let_def)
  then show ?thesis by (simp add: project_finite)
qed

lemma mercator_strict:
  fixes a b :: real
  assumes "- 85.0511287798 \<le> a" "a < b" "b \<le> 85.0511287798"
  shows "6378137 * ln ((1 + sin (a * (pi / 180))) / (1 - sin (a * (pi / 180)))) / 2 <
         6378137 * ln ((1 + sin (b * (pi / 180))) / (1 - sin (b * (pi / 180)))) / 2"
proof -
  have ba: "a \<le> 85.0511287798" "- 85.0511287798 \<le> b" using assms by linarith+
  note sa = sin_clamped [OF assms(1) ba(1)]
  note sb = sin_clamped [OF ba(2) assms(3)]
  note aa = clamp_angle [OF assms(1) ba(1)]
  note ab = clamp_angle [OF ba(2) assms(3)]
  have "a * (pi / 180) < b * (pi / 180)" using assms(2) by simp
  then have lt: "sin (a * (pi / 180)) < sin (b * (pi / 180))"
    using aa ab by (intro sin_monotone_2pi) simp_all
  let ?s = "sin (a * (pi / 180))" and ?t = "sin (b * (pi / 180))"
  have pa: "0 < (1 + ?s) / (1 - ?s)" and pb: "0 < (1 + ?t) / (1 - ?t)"
    using sa sb by simp_all
  have "(1 + ?s) * (1 - ?t) < (1 + ?t) * (1 - ?s)"
    using lt by (simp add: algebra_simps)
  then have "(1 + ?s) / (1 - ?s) < (1 + ?t) / (1 - ?t)"
    using sa sb by (simp add: divide_less_eq less_divide_eq field_simps)
  then have "ln ((1 + ?s) / (1 - ?s)) < ln ((1 + ?t) / (1 - ?t))"
    using pa pb by simp
  then show ?thesis by simp
qed

text \<open>
  C7: the projection clamps the latitude to 85.0511287798 degrees north and south and
  projects the clamped value. For a finite coordinate the plane point is
  \<open>x = R * lng * pi / 180\<close> and \<open>y = R * ln ((1 + sin t) / (1 - sin t)) / 2\<close>, where \<open>t\<close> is
  the clamped latitude in radians. A latitude at or above 85.0511287798 (also an
  infinite one) projects to the same plane point as 85.0511287798 itself, for every
  longitude, so \<open>LatLng(90, 0)\<close> and \<open>LatLng(85.0511287798, 0)\<close> have the same
  projection; a latitude at or below \<open>-85.0511287798\<close> projects as \<open>-85.0511287798\<close> does.
  Within the two bounds nothing is clamped: \<open>y\<close> grows strictly with the latitude.
\<close>

theorem project_clamps_latitude:
  "SphericalMercator_project \<lparr>lat = Num a, lng = Num l, alt = al\<rparr> =
     \<lparr>px = Num (6378137 * l * (pi / 180)),
      py = Num (6378137 *
             ln ((1 + sin (max (min 85.0511287798 a) (- 85.0511287798) * (pi / 180))) /
                 (1 - sin (max (min 85.0511287798 a) (- 85.0511287798) * (pi / 180)))) / 2)\<rparr> \<and>
   (js_le (Num 85.0511287798) la \<longrightarrow>
      SphericalMercator_project \<lparr>lat = la, lng = lo, alt = al\<rparr> =
      SphericalMercator_project \<lparr>lat = Num 85.0511287798, lng = lo, alt = al'\<rparr>) \<and>
   (js_le la (Num (- 85.0511287798)) \<longrightarrow>
      SphericalMercator_project \<lparr>lat = la, lng = lo, alt = al\<rparr> =
      SphericalMercator_project \<lparr>lat = Num (- 85.0511287798), lng = lo, alt = al'\<rparr>) \<and>
   (- 85.0511287798 \<le> u \<and> u < v \<and> v \<le> 85.0511287798 \<longrightarrow>
      js_lt (py (SphericalMercator_project \<lparr>lat = Num u, lng = lo, alt = al\<rparr>))
            (py (SphericalMercator_project \<lparr>lat = Num v, lng = lo', alt = al'\<rparr>)))"
proof -
  have 1: "SphericalMercator_project \<lparr>lat = Num a, lng = Num l, alt = al\<rparr> =
     \<lparr>px = Num (6378137 * l * (pi / 180)),
      py = Num (6378137 *
             ln ((1 + sin (max (min 85.0511287798 a) (- 85.0511287798) * (pi / 180))) /
                 (1 - sin (max (min 85.0511287798 a) (- 85.0511287798) * (pi / 180)))) / 2)\<rparr>"
    by (rule project_finite)
  have 2: "SphericalMercator_project \<lparr>lat = la, lng = lo, alt = al\<rparr> =
      SphericalMercator_project \<lparr>lat = Num 85.0511287798, lng = lo, alt = al'\<rparr>"
    if h: "js_le (Num 85.0511287798) la"
  proof -
    have "js_le MAX_LATITUDE la" using h unfolding MAX_LATITUDE_def .
    then have c: "js_max (js_min MAX_LATITUDE la) (js_neg MAX_LATITUDE) = MAX_LATITUDE"
      by (rule clamp_upper)
    have "SphericalMercator_project \<lparr>lat = la, lng = lo, alt = al\<rparr> =
        SphericalMercator_project \<lparr>lat = MAX_LATITUDE, lng = lo, alt = al'\<rparr>"
      by (simp add: SphericalMercator_project_def c clamp_fixed(1))
    then show ?thesis unfolding MAX_LATITUDE_def .
  qed
  have 3: "SphericalMercator_project \<lparr>lat = la, lng = lo, alt = al\<rparr> =
      SphericalMercator_project \<lparr>lat = Num (- 85.0511287798), lng = lo, alt = al'\<rparr>"
    if h: "js_le la (Num (- 85.0511287798))"
  proof -
    have "js_le la (js_neg MAX_LATITUDE)" using h unfolding MAX_LATITUDE_def js_neg.simps .
    then have c: "js_max (js_min MAX_LATITUDE la) (js_neg MAX_LATITUDE) = js_neg MAX_LATITUDE"
      by (rule clamp_lower)
    have "SphericalMercator_project \<lparr>lat = la, lng = lo, alt = al\<rparr> =
        SphericalMercator_project \<lparr>lat = js_neg MAX_LATITUDE, lng = lo, alt = al'\<rparr>"
      by (simp add: SphericalMercator_project_def c clamp_fixed(2))
    then show ?thesis unfolding MAX_LATITUDE_def js_neg.simps .
  qed
  have 4: "js_lt (py (SphericalMercator_project \<lparr>lat = Num u, lng = lo, alt = al\<rparr>))
            (py (SphericalMercator_project \<lparr>lat = Num v, lng = lo', alt = al'\<rparr>))"
    if h: "- 85.0511287798 \<le> u \<and> u < v \<and> v \<le> 85.0511287798"
  proof -
    have cu: "max (min 85.0511287798 u) (- 85.0511287798) = u"
      and cv: "max (min 85.0511287798 v) (- 85.0511287798) = v"
      using h by linarith+
    have s: "6378137 * ln ((1 + sin (u * (pi / 180))) / (1 - sin (u * (pi / 180)))) / 2 <
         6378137 * ln ((1 + sin (v * (pi / 180))) / (1 - sin (v * (pi / 180)))) / 2"
      using h by (intro mercator_strict) simp_all
    have yu: "py (SphericalMercator_project \<lparr>lat = Num u, lng = lo, alt = al\<rparr>) =
        Num (6378137 * ln ((1 + sin (u * (pi / 180))) / (1 - sin (u * (pi / 180)))) / 2)"
      using mercator_y [of u lo al] unfolding cu .
    have yv: "py (SphericalMercator_project \<lparr>lat = Num v, lng = lo', alt = al'\<rparr>) =
        Num (6378137 * ln ((1 + sin (v * (pi / 180))) / (1 - sin (v * (pi / 180)))) / 2)"
      using mercator_y [of v lo' al'] unfolding cv .
    show ?thesis unfolding yu yv using s by simp
  qed
  show ?thesis using 1 2 3 4 by blast
qed

theorem project_clamps_latitude_witness:
  "js_le (Num 85.0511287798) (Num 90) \<and>
   SphericalMercator_project \<lparr>lat = Num 90, lng = Num 0, alt = None\<rparr> =
   SphericalMercator_project \<lparr>lat = Num 85.0511287798, lng = Num 0, alt = None\<rparr> \<and>
   js_le (Num (- 90)) (Num (- 85.0511287798)) \<and>
   SphericalMercator_project \<lparr>lat = Num (- 90), lng = Num 0, alt = None\<rparr> =
   SphericalMercator_project \<lparr>lat = Num (- 85.0511287798), lng = Num 0, alt = None\<rparr> \<and>
   SphericalMercator_project \<lparr>lat = Num 0, lng = Num 0, alt = None\<rparr> =
     \<lparr>px = Num 0, py = Num 0\<rparr> \<and>
   js_lt (py (SphericalMercator_project \<lparr>lat = Num 85, lng = Num 0, alt = None\<rparr>))
         (py (SphericalMercator_project \<lparr>lat = Num 90, lng = Num 0, alt = None\<rparr>))"
proof -
  have h: "js_le (Num 85.0511287798) (Num 90)" "js_le (Num (- 90)) (Num (- 85.0511287798))"
    by (simp_all add: js_le_def)
  note T1 = project_clamps_latitude [of 0 0 None "Num 90" "Num 0" None 85 "85.0511287798" "Num 0"]
  note T2 = project_clamps_latitude [of 0 0 None "Num (- 90)" "Num 0" None 85 "85.0511287798" "Num 0"]
  have 1: "SphericalMercator_project \<lparr>lat = Num 90, lng = Num 0, alt = None\<rparr> =
      SphericalMercator_project \<lparr>lat = Num 85.0511287798, lng = Num 0, alt = None\<rparr>"
    using T1 h(1) by blast
  have 2: "SphericalMercator_project \<lparr>lat = Num (- 90), lng = Num 0, alt = None\<rparr> =
      SphericalMercator_project \<lparr>lat = Num (- 85.0511287798), lng = Num 0, alt = None\<rparr>"
    using T2 h(2) by blast
  have 3: "SphericalMercator_project \<lparr>lat = Num 0, lng = Num 0, alt = None\<rparr> =
     \<lparr>px = Num 0, py = Num 0\<rparr>"
    using conjunct1 [OF T1] by simp
  have b: "- 85.0511287798 \<le> (85::real) \<and> (85::real) < 85.0511287798 \<and>
      (85.0511287798::real) \<le> 85.0511287798"
    by simp
  have "js_lt (py (SphericalMercator_project \<lparr>lat = Num 85, lng = Num 0, alt = None\<rparr>))
         (py (SphericalMercator_project \<lparr>lat = Num 85.0511287798, lng = Num 0, alt = None\<rparr>))"
    using T1 b by blast
  then have 4: "js_lt (py (SphericalMercator_project \<lparr>lat = Num 85, lng = Num 0, alt = None\<rparr>))
         (py (SphericalMercator_project \<lparr>lat = Num 90, lng = Num 0, alt = None\<rparr>))"
    unfolding 1 .
  show ?thesis
    by (intro conjI) (rule h(1), rule 1, rule h(2), rule 2, rule 3, rule 4)
qed

section \<open>The tile range of pixel bounds\<close>

lemma pxBoundsToTileRange_finite:
  assumes ts: "getTileSize layer = \<lparr>px = Num tw, py = Num th\<rparr>" and nz: "tw \<noteq> 0" "th \<noteq> 0"
  shows "pxBoundsToTileRange layer
           \<lparr>bmin = \<lparr>px = Num a, py = Num b\<rparr>, bmax = \<lparr>px = Num c, py = Num d\<rparr>\<rparr> =
         \<lparr>bmin = \<lparr>px = Num (of_int (min \<lfloor>a / tw\<rfloor> (\<lceil>c / tw\<rceil> - 1))),
                  py = Num (of_int (min \<lfloor>b / th\<rfloor> (\<lceil>d / th\<rceil> - 1)))\<rparr>,
          bmax = \<lparr>px = Num (of_int (max \<lfloor>a / tw\<rfloor> (\<lceil>c / tw\<rceil> - 1))),
                  py = Num (of_int (max \<lfloor>b / th\<rfloor> (\<lceil>d / th\<rceil> - 1)))\<rparr>\<rparr>"
  using nz
  by (simp add: pxBoundsToTileRange_def ts new_Bounds_def Bounds_extend_def Point_floor_def
      Point_ceil_def Point_unscaleBy_def Point_subtract_def js_sub_def js_min_Num js_max_Num
      min_def max_def)

lemma tileRange_spec_finite:
  assumes nz: "tw \<noteq> 0" "th \<noteq> 0"
  shows "tileRange_spec \<lparr>px = Num tw, py = Num th\<rparr>
           \<lparr>bmin = \<lparr>px = Num a, py = Num b\<rparr>, bmax = \<lparr>px = Num c, py = Num d\<rparr>\<rparr> =
         \<lparr>bmin = \<lparr>px = Num (of_int \<lfloor>a / tw\<rfloor>), py = Num (of_int \<lfloor>b / th\<rfloor>)\<rparr>,
          bmax = \<lparr>px = Num (of_int (\<lceil>c / tw\<rceil> - 1)), py = Num (of_int (\<lceil>d / th\<rceil> - 1))\<rparr>\<rparr>"
  using nz by (simp add: tileRange_spec_def js_sub_def)

lemma floor_less_ceil:
  fixes a c t :: real
  assumes "0 < t" "a < c"
  shows "\<lfloor>a / t\<rfloor> \<le> \<lceil>c / t\<rceil> - 1"
proof -
  have "a / t < c / t" using assms by (simp add: divide_strict_right_mono)
  then have "of_int \<lfloor>a / t\<rfloor> < (of_int \<lceil>c / t\<rceil> :: real)" by linarith
  then show ?thesis by linarith
qed

lemma pxBoundsToTileRange_spec_iff:
  assumes ts: "getTileSize layer = \<lparr>px = Num tw, py = Num th\<rparr>" and nz: "tw \<noteq> 0" "th \<noteq> 0"
  shows "(pxBoundsToTileRange layer
           \<lparr>bmin = \<lparr>px = Num a, py = Num b\<rparr>, bmax = \<lparr>px = Num c, py = Num d\<rparr>\<rparr> =
         tileRange_spec (getTileSize layer)
           \<lparr>bmin = \<lparr>px = Num a, py = Num b\<rparr>, bmax = \<lparr>px = Num c, py = Num d\<rparr>\<rparr>) =
         (\<lfloor>a / tw\<rfloor> \<le> \<lceil>c / tw\<rceil> - 1 \<and> \<lfloor>b / th\<rfloor> \<le> \<lceil>d / th\<rceil> - 1)"
  unfolding pxBoundsToTileRange_finite [OF ts nz] ts tileRange_spec_finite [OF nz]
  by (auto simp: min_def max_def)

text \<open>
  C3 (as the code has it): for every pixel bounds and tile size, \<open>_pxBoundsToTileRange\<close>
  returns the \<open>Bounds\<close> built from the two points \<open>floor(min / tileSize)\<close> and
  \<open>ceil(max / tileSize) - 1\<close>: its minimum corner is the smaller of the two on each
  axis, its maximum corner the larger, because \<open>new Bounds\<close> orders its points. For
  finite values and a nonzero tile size the corners are the ones of the specification
  exactly when \<open>floor(min / tileSize) \<le> ceil(max / tileSize) - 1\<close> on both axes, which
  holds whenever the tile size is positive and \<open>min < max\<close> on both axes.
\<close>

theorem pxBoundsToTileRange_corners:
  "pxBoundsToTileRange layer bounds =
     new_Bounds (bmin (tileRange_spec (getTileSize layer) bounds))
                (bmax (tileRange_spec (getTileSize layer) bounds)) \<and>
   (getTileSize layer = \<lparr>px = Num tw, py = Num th\<rparr> \<and> tw \<noteq> 0 \<and> th \<noteq> 0 \<longrightarrow>
    ((pxBoundsToTileRange layer
        \<lparr>bmin = \<lparr>px = Num a, py = Num b\<rparr>, bmax = \<lparr>px = Num c, py = Num d\<rparr>\<rparr> =
      tileRange_spec (getTileSize layer)
        \<lparr>bmin = \<lparr>px = Num a, py = Num b\<rparr>, bmax = \<lparr>px = Num c, py = Num d\<rparr>\<rparr>) =
     (\<lfloor>a / tw\<rfloor> \<le> \<lceil>c / tw\<rceil> - 1 \<and> \<lfloor>b / th\<rfloor> \<le> \<lceil>d / th\<rceil> - 1)) \<and>
    (0 < tw \<and> 0 < th \<and> a < c \<and> b < d \<longrightarrow>
     pxBoundsToTileRange layer
        \<lparr>bmin = \<lparr>px = Num a, py = Num b\<rparr>, bmax = \<lparr>px = Num c, py = Num d\<rparr>\<rparr> =
      tileRange_spec (getTileSize layer)
        \<lparr>bmin = \<lparr>px = Num a, py = Num b\<rparr>, bmax = \<lparr>px = Num c, py = Num d\<rparr>\<rparr>))"
proof -
  let ?B = "\<lparr>bmin = \<lparr>px = Num a, py = Num b\<rparr>, bmax = \<lparr>px = Num c, py = Num d\<rparr>\<rparr>"
  have 1: "pxBoundsToTileRange layer bounds =
     new_Bounds (bmin (tileRange_spec (getTileSize layer) bounds))
                (bmax (tileRange_spec (getTileSize layer) bounds))"
    by (simp add: pxBoundsToTileRange_def tileRange_spec_def Point_floor_def Point_ceil_def
        Point_unscaleBy_def Point_subtract_def Let_def)
  have 2: "(pxBoundsToTileRange layer ?B = tileRange_spec (getTileSize layer) ?B) =
     (\<lfloor>a / tw\<rfloor> \<le> \<lceil>c / tw\<rceil> - 1 \<and> \<lfloor>b / th\<rfloor> \<le> \<lceil>d / th\<rceil> - 1)"
    if "getTileSize layer = \<lparr>px = Num tw, py = Num th\<rparr> \<and> tw \<noteq> 0 \<and> th \<noteq> 0"
    using that pxBoundsToTileRange_spec_iff by blast
  have 3: "pxBoundsToTileRange layer ?B = tileRange_spec (getTileSize layer) ?B"
    if h: "getTileSize layer = \<lparr>px = Num tw, py = Num th\<rparr> \<and> tw \<noteq> 0 \<and> th \<noteq> 0"
      and p: "0 < tw \<and> 0 < th \<and> a < c \<and> b < d"
  proof -
    have "\<lfloor>a / tw\<rfloor> \<le> \<lceil>c / tw\<rceil> - 1 \<and> \<lfloor>b / th\<rfloor> \<le> \<lceil>d / th\<rceil> - 1"
      using p floor_less_ceil by blast
    then show ?thesis using 2 [OF h] by blast
  qed
  show ?thesis using 1 2 3 by blast
qed

theorem pxBoundsToTileRange_corners_witness:
  "getTileSize defaultLayer = \<lparr>px = Num 256, py = Num 256\<rparr> \<and>
   pxBoundsToTileRange defaultLayer
     \<lparr>bmin = \<lparr>px = Num 0, py = Num 0\<rparr>, bmax = \<lparr>px = Num 512, py = Num 300\<rparr>\<rparr> =
   tileRange_spec (getTileSize defaultLayer)
     \<lparr>bmin = \<lparr>px = Num 0, py = Num 0\<rparr>, bmax = \<lparr>px = Num 512, py = Num 300\<rparr>\<rparr> \<and>
   tileRange_spec (getTileSize defaultLayer)
     \<lparr>bmin = \<lparr>px = Num 0, py = Num 0\<rparr>, bmax = \<lparr>px = Num 512, py = Num 300\<rparr>\<rparr> =
   \<lparr>bmin = \<lparr>px = Num 0, py = Num 0\<rparr>, bmax = \<lparr>px = Num 1, py = Num 1\<rparr>\<rparr>"
proof -
  have ts: "getTileSize defaultLayer = \<lparr>px = Num 256, py = Num 256\<rparr>"
    by (simp add: getTileSize_def defaultLayer_def)
  note T = pxBoundsToTileRange_corners [of defaultLayer _ 256 256 0 0 512 300]
  have 1: "pxBoundsToTileRange defaultLayer
     \<lparr>bmin = \<lparr>px = Num 0, py = Num 0\<rparr>, bmax = \<lparr>px = Num 512, py = Num 300\<rparr>\<rparr> =
   tileRange_spec (getTileSize defaultLayer)
     \<lparr>bmin = \<lparr>px = Num 0, py = Num 0\<rparr>, bmax = \<lparr>px = Num 512, py = Num 300\<rparr>\<rparr>"
    using conjunct2 [OF T] ts by simp
  have ce: "\<lceil>75 / 64 :: real\<rceil> = 2" by linarith
  have 2: "tileRange_spec (getTileSize defaultLayer)
     \<lparr>bmin = \<lparr>px = Num 0, py = Num 0\<rparr>, bmax = \<lparr>px = Num 512, py = Num 300\<rparr>\<rparr> =
   \<lparr>bmin = \<lparr>px = Num 0, py = Num 0\<rparr>, bmax = \<lparr>px = Num 1, py = Num 1\<rparr>\<rparr>"
    by (simp add: ts tileRange_spec_def js_sub_def ce)
  show ?thesis
    by (intro conjI) (rule ts, rule 1, rule 2)
qed

text \<open>
  Pixel bounds of no extent on a tile boundary, as a map container of size zero gives
  them: the returned range has the two corners of the specification exchanged.
\<close>

theorem pxBoundsToTileRange_degenerate_counterexample:
  "pxBoundsToTileRange defaultLayer
     \<lparr>bmin = \<lparr>px = Num 256, py = Num 256\<rparr>, bmax = \<lparr>px = Num 256, py = Num 256\<rparr>\<rparr> =
     \<lparr>bmin = \<lparr>px = Num 0, py = Num 0\<rparr>, bmax = \<lparr>px = Num 1, py = Num 1\<rparr>\<rparr> \<and>
   tileRange_spec (getTileSize defaultLayer)
     \<lparr>bmin = \<lparr>px = Num 256, py = Num 256\<rparr>, bmax = \<lparr>px = Num 256, py = Num 256\<rparr>\<rparr> =
     \<lparr>bmin = \<lparr>px = Num 1, py = Num 1\<rparr>, bmax = \<lparr>px = Num 0, py = Num 0\<rparr>\<rparr> \<and>
   pxBoundsToTileRange defaultLayer
     \<lparr>bmin = \<lparr>px = Num 256, py = Num 256\<rparr>, bmax = \<lparr>px = Num 256, py = Num 256\<rparr>\<rparr> \<noteq>
   tileRange_spec (getTileSize defaultLayer)
     \<lparr>bmin = \<lparr>px = Num 256, py = Num 256\<rparr>, bmax = \<lparr>px = Num 256, py = Num 256\<rparr>\<rparr>"
  by (simp add: pxBoundsToTileRange_def tileRange_spec_def getTileSize_def defaultLayer_def
      new_Bounds_def Bounds_extend_def Point_floor_def Point_ceil_def Point_unscaleBy_def
      Point_subtract_def js_sub_def js_min_def js_max_def)

section \<open>The zoom limit\<close>

lemma clamp_in_range:
  assumes "js_le lo hi" "js_max lo (js_min hi z) \<noteq> NaN"
  shows "js_le lo (js_max lo (js_min hi z)) \<and> js_le (js_max lo (js_min hi z)) hi"
  using assms
  by (cases lo; cases hi; cases z) (auto simp: js_max_def js_min_def js_le_def js_eq_def)

text \<open>
  C5 (as the code has it): \<open>_limitZoom\<close> snaps first and clamps last. The zoom is
  snapped to the increment when the increment is nonzero (the increment is \<open>zoomSnap\<close>
  when the browser has 3D transforms and 1 otherwise), and the snapped value is
  clamped to the zoom limits; so whenever the lower limit is at most the upper limit
  and the result is a number, the result lies within the limits.
\<close>

theorem limitZoom_snap_then_clamp:
  "limitZoom m z =
     clamp_spec (snap_spec z (if any3d m then zoomSnap m else Num 1))
       (getMinZoom m) (getMaxZoom m) \<and>
   (js_le (getMinZoom m) (getMaxZoom m) \<and> limitZoom m z \<noteq> NaN \<longrightarrow>
    js_le (getMinZoom m) (limitZoom m z) \<and> js_le (limitZoom m z) (getMaxZoom m))"
proof -
  have 1: "limitZoom m z =
     clamp_spec (snap_spec z (if any3d m then zoomSnap m else Num 1))
       (getMinZoom m) (getMaxZoom m)"
    by (simp add: limitZoom_def clamp_spec_def snap_spec_def Let_def)
  have 2: "js_le (getMinZoom m) (limitZoom m z) \<and> js_le (limitZoom m z) (getMaxZoom m)"
    if a: "js_le (getMinZoom m) (getMaxZoom m) \<and> limitZoom m z \<noteq> NaN"
    using a clamp_in_range [of "getMinZoom m" "getMaxZoom m"]
    by (simp add: limitZoom_def Let_def)
  show ?thesis using 1 2 by blast
qed

theorem limitZoom_snap_then_clamp_witness:
  "js_le (Num 0) (Num 2.5) \<and>
   limitZoom (Map_initialize None None None (Some (Num 2.5)) (Num 1) True
       \<lparr>lat = Num 0, lng = Num 0, alt = None\<rparr>) (Num 2.7) = Num 2.5 \<and>
   js_le (limitZoom (Map_initialize None None None (Some (Num 2.5)) (Num 1) True
       \<lparr>lat = Num 0, lng = Num 0, alt = None\<rparr>) (Num 2.7)) (Num 2.5)"
  using limitZoom_snap_then_clamp [of "Map_initialize None None None (Some (Num 2.5)) (Num 1) True
       \<lparr>lat = Num 0, lng = Num 0, alt = None\<rparr>" "Num 2.7"]
  by (simp add: Map_initialize_def getMinZoom_def getMaxZoom_def snap_spec_def clamp_spec_def
      js_min_def js_max_def js_le_def js_eq_def)

text \<open>
  With the upper limit 2.5 and the increment 1, the zoom 2.7 is limited to 2.5 by the
  code; clamping first and snapping last gives 3, above the limit.
\<close>

theorem limitZoom_order_counterexample:
  "limitZoom (Map_initialize None None None (Some (Num 2.5)) (Num 1) True
       \<lparr>lat = Num 0, lng = Num 0, alt = None\<rparr>) (Num 2.7) = Num 2.5 \<and>
   limitZoom_spec (Map_initialize None None None (Some (Num 2.5)) (Num 1) True
       \<lparr>lat = Num 0, lng = Num 0, alt = None\<rparr>) (Num 2.7) = Num 3 \<and>
   limitZoom (Map_initialize None None None (Some (Num 2.5)) (Num 1) True
       \<lparr>lat = Num 0, lng = Num 0, alt = None\<rparr>) (Num 2.7) \<noteq>
   limitZoom_spec (Map_initialize None None None (Some (Num 2.5)) (Num 1) True
       \<lparr>lat = Num 0, lng = Num 0, alt = None\<rparr>) (Num 2.7)"
  by (simp add: limitZoom_def limitZoom_spec_def Map_initialize_def getMinZoom_def
      getMaxZoom_def snap_spec_def clamp_spec_def js_min_def js_max_def)

section \<open>The getters before the view is set\<close>

text \<open>
  C9 (as the code has it): on a map whose view is not loaded, \<open>getCenter\<close> raises
  \<open>Set map center and zoom first.\<close> and returns nothing, while \<open>getZoom\<close> raises
  nothing and returns the stored zoom (undefined unless a zoom was configured or
  set). The constructor leaves the view unloaded unless both a centre and a zoom are
  configured.
\<close>

theorem getters_before_setView:
  "(\<not> map_loaded m \<longrightarrow> getCenter m = Inl ViewNotSet \<and> getZoom m = Inr (map_zoom m)) \<and>
   map_loaded (Map_initialize oc oz omin omax snap cap vc) = (oc \<noteq> None \<and> oz \<noteq> None)"
  by (auto simp: getCenter_def getZoom_def checkIfLoaded_def Map_initialize_def
      setView_reset_def resetView_def Let_def split: option.splits)

theorem getters_before_setView_witness:
  "\<not> map_loaded (Map_initialize None (Some (Num 3)) None None (Num 1) True
       \<lparr>lat = Num 0, lng = Num 0, alt = None\<rparr>) \<and>
   getCenter (Map_initialize None (Some (Num 3)) None None (Num 1) True
       \<lparr>lat = Num 0, lng = Num 0, alt = None\<rparr>) = Inl ViewNotSet \<and>
   getZoom (Map_initialize None (Some (Num 3)) None None (Num 1) True
       \<lparr>lat = Num 0, lng = Num 0, alt = None\<rparr>) = Inr (Some (Num 3))"
proof -
  let ?m = "Map_initialize None (Some (Num 3)) None None (Num 1) True
       \<lparr>lat = Num 0, lng = Num 0, alt = None\<rparr>"
  have z: "map_zoom ?m = Some (Num 3)"
    by (simp add: Map_initialize_def limitZoom_def getMinZoom_def getMaxZoom_def
        js_min_def js_max_def)
  show ?thesis
    using getters_before_setView [of ?m None "Some (Num 3)" None None "Num 1" True
        "\<lparr>lat = Num 0, lng = Num 0, alt = None\<rparr>"] z
    by simp
qed

text \<open>A map constructed without options: \<open>getZoom\<close> returns undefined, no error.\<close>

theorem getZoom_before_setView_counterexample:
  "\<not> map_loaded (Map_initialize None None None None (Num 1) True
       \<lparr>lat = Num 0, lng = Num 0, alt = None\<rparr>) \<and>
   getZoom (Map_initialize None None None None (Num 1) True
       \<lparr>lat = Num 0, lng = Num 0, alt = None\<rparr>) = Inr None"
  by (simp add: getZoom_def Map_initialize_def)

section \<open>Tile keys\<close>

lemma digits_table:
  "list_all (\<lambda>d. digit_val (digit_char d) = Some d \<and> digit_char d \<noteq> CHR '':'' \<and>
     digit_char d \<noteq> CHR ''-'' \<and> digit_char d \<noteq> CHR ''+'') [0..<10]"
  by code_simp

lemma digit_val_digit_char: "d < 10 \<Longrightarrow> digit_val (digit_char d) = Some d"
  using digits_table by (simp add: list_all_iff)

lemma digit_char_not_special:
  "d < 10 \<Longrightarrow> digit_char d \<noteq> CHR '':'' \<and> digit_char d \<noteq> CHR ''-'' \<and> digit_char d \<noteq> CHR ''+''"
  using digits_table by (simp add: list_all_iff)

lemma parse_digits_append:
  "parse_digits acc (xs @ ys) =
     (case parse_digits acc xs of None \<Rightarrow> None | Some a \<Rightarrow> parse_digits a ys)"
  by (induction xs arbitrary: acc) (auto split: option.splits)

lemma parse_digits_nat_digits: "parse_digits 0 (nat_digits n) = Some n"
proof (induction n rule: nat_digits.induct)
  case (1 n)
  show ?case
  proof (cases "n < 10")
    case True
    then show ?thesis
      by (subst nat_digits.simps) (simp add: digit_val_digit_char)
  next
    case False
    then have ih: "parse_digits 0 (nat_digits (n div 10)) = Some (n div 10)"
      using 1 by simp
    have "n mod 10 < 10" by simp
    then have dv: "digit_val (digit_char (n mod 10)) = Some (n mod 10)"
      by (rule digit_val_digit_char)
    show ?thesis
      using False
      by (subst nat_digits.simps) (simp add: parse_digits_append ih dv)
  qed
qed

lemma nat_digits_chars:
  "c \<in> set (nat_digits n) \<Longrightarrow> c \<noteq> CHR '':'' \<and> c \<noteq> CHR ''-'' \<and> c \<noteq> CHR ''+''"
proof (induction n rule: nat_digits.induct)
  case (1 n)
  show ?case
  proof (cases "n < 10")
    case True
    then show ?thesis
      using 1(2) digit_char_not_special [of n]
      by (subst (asm) nat_digits.simps) simp
  next
    case False
    have "n mod 10 < 10" by simp
    then show ?thesis
      using False 1 digit_char_not_special [of "n mod 10"]
      by (subst (asm) (2) nat_digits.simps) auto
  qed
qed

lemma nat_digits_nonempty: "nat_digits n \<noteq> []"
  by (subst nat_digits.simps) simp

lemma String_toNumber_nat_digits: "String_toNumber (nat_digits n) = Some (int n)"
proof -
  obtain c cs where eq: "nat_digits n = c # cs"
    using nat_digits_nonempty [of n] by (cases "nat_digits n") auto
  then have "c \<in> set (nat_digits n)" by simp
  then have "c \<noteq> CHR ''-''" "c \<noteq> CHR ''+''"
    using nat_digits_chars by blast+
  moreover have "parse_nat (c # cs) = Some n"
    using parse_digits_nat_digits [of n] eq by (simp add: parse_nat_def)
  ultimately show ?thesis
    using eq by (simp add: String_toNumber_def)
qed

lemma String_toNumber_toString: "String_toNumber (Number_toString i) = Some i"
proof (cases "i < 0")
  case True
  have "parse_nat (nat_digits (nat (- i))) = Some (nat (- i))"
    using parse_digits_nat_digits nat_digits_nonempty by (simp add: parse_nat_def)
  then show ?thesis
    using True by (simp add: String_toNumber_def Number_toString_def)
next
  case False
  then show ?thesis
    by (simp add: Number_toString_def String_toNumber_nat_digits)
qed

lemma Number_toString_no_colon: "CHR '':'' \<notin> set (Number_toString i)"
  using nat_digits_chars by (auto simp: Number_toString_def)

lemma String_split_no_sep: "sep \<notin> set s \<Longrightarrow> String_split sep s = [s]"
  by (induction s) auto

lemma String_split_append:
  "sep \<notin> set s \<Longrightarrow> String_split sep (s @ sep # r) = s # String_split sep r"
  by (induction s) auto

lemma key_decode_encode: "keyToTileCoords (tileCoordsToKey c) = Some c"
proof -
  let ?a = "Number_toString (tx c)" and ?b = "Number_toString (ty c)"
    and ?c = "Number_toString (tz c)"
  have "String_split CHR '':'' (tileCoordsToKey c) = [?a, ?b, ?c]"
    by (simp add: tileCoordsToKey_def String_split_append String_split_no_sep
        Number_toString_no_colon)
  then show ?thesis
    by (simp add: keyToTileCoords_def part_toNumber_def String_toNumber_toString)
qed

text \<open>
  C4: decoding the key of an integer tile coordinate gives back that coordinate, for
  negative components too; so the encoding is injective.
\<close>

theorem tile_key_roundtrip:
  "keyToTileCoords (tileCoordsToKey \<lparr>tx = a, ty = b, tz = c\<rparr>) = Some \<lparr>tx = a, ty = b, tz = c\<rparr> \<and>
   inj tileCoordsToKey"
proof -
  have "inj tileCoordsToKey"
  proof (rule injI)
    fix u v :: TileCoord
    assume "tileCoordsToKey u = tileCoordsToKey v"
    then have "keyToTileCoords (tileCoordsToKey u) = keyToTileCoords (tileCoordsToKey v)"
      by simp
    then show "u = v" by (simp add: key_decode_encode)
  qed
  then show ?thesis by (simp add: key_decode_encode)
qed

theorem tile_key_roundtrip_witness:
  "tileCoordsToKey \<lparr>tx = - 3, ty = 12, tz = 5\<rparr> = ''-3:12:5'' \<and>
   keyToTileCoords ''-3:12:5'' = Some \<lparr>tx = - 3, ty = 12, tz = 5\<rparr>"
proof -
  have k: "tileCoordsToKey \<lparr>tx = - 3, ty = 12, tz = 5\<rparr> = ''-3:12:5''"
    by code_simp
  show ?thesis
    using k tile_key_roundtrip [of "- 3" 12 5] by simp
qed

section \<open>Wrapping\<close>

lemma trunc_real_bounds: "\<bar>q - of_int (trunc_real q)\<bar> < 1"
  unfolding trunc_real_def by (auto; linarith)

lemma fmod_scaled: "d \<noteq> 0 \<Longrightarrow> fmod a d = d * (a / d - of_int (trunc_real (a / d)))"
  by (simp add: fmod_def field_simps)

lemma fmod_unit:
  assumes "d \<noteq> 0" "0 \<le> t" "t < 1"
  shows "fmod (d * t) d = d * t"
proof -
  have "\<lfloor>t\<rfloor> = 0" using assms by linarith
  then show ?thesis using assms by (simp add: fmod_def trunc_real_def)
qed

lemma fmod_unit_plus:
  assumes "d \<noteq> 0" "0 \<le> t" "t < 1"
  shows "fmod (d * t + d) d = d * t"
proof -
  have "(d * t + d) / d = t + 1" using assms by (simp add: field_simps)
  moreover have "\<lfloor>t + 1\<rfloor> = 1" using assms by linarith
  ultimately show ?thesis using assms by (simp add: fmod_def trunc_real_def)
qed

lemma fmod_wrap:
  assumes "d \<noteq> 0"
  shows "\<exists>t. 0 \<le> t \<and> t < 1 \<and> fmod (fmod a d + d) d = d * t"
proof -
  define f where "f = a / d - of_int (trunc_real (a / d))"
  have f: "-1 < f" "f < 1" using trunc_real_bounds [of "a / d"] by (auto simp: f_def)
  have 1: "fmod a d + d = d * (f + 1)" using assms by (simp add: fmod_scaled f_def algebra_simps)
  have 2: "(d * (f + 1)) / d = f + 1" using assms by simp
  have 3: "trunc_real (f + 1) = \<lfloor>f + 1\<rfloor>" using f by (simp add: trunc_real_def)
  have "fmod (d * (f + 1)) d = d * (f + 1 - of_int \<lfloor>f + 1\<rfloor>)"
    unfolding fmod_def 2 3 by (simp add: algebra_simps)
  moreover have "0 \<le> f + 1 - of_int \<lfloor>f + 1\<rfloor>" "f + 1 - of_int \<lfloor>f + 1\<rfloor> < 1" by linarith+
  ultimately show ?thesis using 1 by metis
qed

lemma wrapNum_else:
  "\<not> (js_eq v (snd r) \<and> b) \<Longrightarrow> wrapNum v r b = wrapNum v r False"
  by (auto simp: wrapNum_def Let_def)

lemma wrapNum_finite:
  assumes "mx \<noteq> mn"
  shows "\<exists>t. 0 \<le> t \<and> t < 1 \<and>
           wrapNum (Num v) (Num mn, Num mx) False = Num ((mx - mn) * t + mn)"
proof -
  have d: "mx - mn \<noteq> 0" using assms by simp
  obtain t where t: "0 \<le> t" "t < 1" "fmod (fmod (v - mn) (mx - mn) + (mx - mn)) (mx - mn) = (mx - mn) * t"
    using fmod_wrap [OF d] by blast
  have "wrapNum (Num v) (Num mn, Num mx) False = Num ((mx - mn) * t + mn)"
    using d t(3) by (simp add: wrapNum_def js_sub_def Let_def)
  then show ?thesis using t by blast
qed

lemma wrapNum_fixed:
  assumes "mx \<noteq> mn" "0 \<le> t" "t < 1"
  shows "wrapNum (Num ((mx - mn) * t + mn)) (Num mn, Num mx) False = Num ((mx - mn) * t + mn)"
proof -
  have d: "mx - mn \<noteq> 0" using assms by simp
  show ?thesis
    using d by (simp add: wrapNum_def js_sub_def Let_def fmod_unit [OF d assms(2,3)]
        fmod_unit_plus [OF d assms(2,3)])
qed

lemma wrapNum_NaN:
  assumes "\<not> (isFinite v \<and> isFinite mn \<and> isFinite mx \<and> mx \<noteq> mn)"
  shows "wrapNum v (mn, mx) False = NaN"
  using assms
  by (cases v; cases mn; cases mx) (auto simp: wrapNum_def js_sub_def Let_def)

lemma wrapNum_idem: "wrapNum (wrapNum v r False) r False = wrapNum v r False"
proof -
  obtain mn mx where r: "r = (mn, mx)" by (cases r)
  show ?thesis
  proof (cases "isFinite v \<and> isFinite mn \<and> isFinite mx \<and> mx \<noteq> mn")
    case True
    then obtain a b c where e: "v = Num a" "mn = Num b" "mx = Num c" "c \<noteq> b"
      by (cases v; cases mn; cases mx) auto
    obtain t where t: "0 \<le> t" "t < 1" "wrapNum (Num a) (Num b, Num c) False = Num ((c - b) * t + b)"
      using wrapNum_finite [OF e(4)] by blast
    show ?thesis
      unfolding r e t(3) using wrapNum_fixed [OF e(4) t(1,2)] .
  next
    case False
    then have "wrapNum v (mn, mx) False = NaN" by (rule wrapNum_NaN)
    moreover have "wrapNum NaN (mn, mx) False = NaN" by (rule wrapNum_NaN) simp
    ultimately show ?thesis by (simp add: r)
  qed
qed

lemma wrapCoords_idem:
  "wrapCoords wx wy (wrapCoords wx wy c) = wrapCoords wx wy c"
  by (simp add: wrapCoords_def wrapNum_idem split: option.splits)

lemma wrapNum_isFinite:
  "isFinite v \<Longrightarrow> isFinite mn \<Longrightarrow> isFinite mx \<Longrightarrow> mx \<noteq> mn \<Longrightarrow> isFinite (wrapNum v (mn, mx) False)"
proof -
  assume a: "isFinite v" "isFinite mn" "isFinite mx" "mx \<noteq> mn"
  then obtain a b c where e: "v = Num a" "mn = Num b" "mx = Num c" "c \<noteq> b"
    by (cases v; cases mn; cases mx) auto
  show ?thesis using wrapNum_finite [OF e(4), of a] e by auto
qed

text \<open>
  C8: wrapping tile coordinates twice gives what wrapping once gives, and the zoom
  component is kept. When each configured wrap range has two finite bounds that
  differ, finite coordinates (integer tile coordinates among them) wrap to finite
  coordinates; otherwise the wrapped component is \<open>NaN\<close> both times.
\<close>

theorem wrapCoords_idempotent:
  "wrapCoords wx wy (wrapCoords wx wy c) = wrapCoords wx wy c \<and>
   cz (wrapCoords wx wy c) = cz c \<and>
   (proper_range wx \<and> proper_range wy \<and> isFinite (cx c) \<and> isFinite (cy c) \<longrightarrow>
    isFinite (cx (wrapCoords wx wy c)) \<and> isFinite (cy (wrapCoords wx wy c)))"
proof -
  have 1: "wrapCoords wx wy (wrapCoords wx wy c) = wrapCoords wx wy c"
    by (rule wrapCoords_idem)
  have 2: "cz (wrapCoords wx wy c) = cz c"
    by (simp add: wrapCoords_def)
  have 3: "isFinite (cx (wrapCoords wx wy c)) \<and> isFinite (cy (wrapCoords wx wy c))"
    if "proper_range wx \<and> proper_range wy \<and> isFinite (cx c) \<and> isFinite (cy c)"
    using that
    by (auto simp: wrapCoords_def proper_range_def wrapNum_isFinite split: option.splits)
  show ?thesis using 1 2 3 by blast
qed

theorem wrapCoords_idempotent_witness:
  "proper_range (Some (Num 0, Num 8)) \<and> proper_range None \<and>
   wrapCoords (Some (Num 0, Num 8)) None (toCoords \<lparr>tx = 9, ty = - 1, tz = 3\<rparr>) =
     toCoords \<lparr>tx = 1, ty = - 1, tz = 3\<rparr> \<and>
   wrapCoords (Some (Num 0, Num 8)) None (toCoords \<lparr>tx = 1, ty = - 1, tz = 3\<rparr>) =
     toCoords \<lparr>tx = 1, ty = - 1, tz = 3\<rparr> \<and>
   isFinite (cx (wrapCoords (Some (Num 0, Num 8)) None (toCoords \<lparr>tx = 9, ty = - 1, tz = 3\<rparr>)))"
proof -
  have p: "proper_range (Some (Num 0, Num 8))" "proper_range None"
    by (simp_all add: proper_range_def)
  have f: "\<lfloor>9 / 8 :: real\<rfloor> = 1" by linarith
  have w: "wrapCoords (Some (Num 0, Num 8)) None (toCoords \<lparr>tx = 9, ty = - 1, tz = 3\<rparr>) =
     toCoords \<lparr>tx = 1, ty = - 1, tz = 3\<rparr>"
    by (simp add: wrapCoords_def toCoords_def wrapNum_def js_sub_def js_eq_def fmod_def
        trunc_real_def f)
  have c: "isFinite (cx (toCoords \<lparr>tx = 9, ty = - 1, tz = 3\<rparr>))"
    "isFinite (cy (toCoords \<lparr>tx = 9, ty = - 1, tz = 3\<rparr>))"
    by (simp_all add: toCoords_def)
  note T = wrapCoords_idempotent [of "Some (Num 0, Num 8)" None
        "toCoords \<lparr>tx = 9, ty = - 1, tz = 3\<rparr>"]
  have i: "wrapCoords (Some (Num 0, Num 8)) None (toCoords \<lparr>tx = 1, ty = - 1, tz = 3\<rparr>) =
     toCoords \<lparr>tx = 1, ty = - 1, tz = 3\<rparr>"
    using conjunct1 [OF T] unfolding w .
  have fin: "isFinite (cx (wrapCoords (Some (Num 0, Num 8)) None
      (toCoords \<lparr>tx = 9, ty = - 1, tz = 3\<rparr>)))"
    using conjunct2 [OF conjunct2 [OF T]] p c by blast
  show ?thesis
    by (intro conjI) (rule p(1), rule p(2), rule w, rule i, rule fin)
qed

section \<open>Wrapping a geographic coordinate\<close>

lemma new_LatLng_ok:
  "la \<noteq> NaN \<Longrightarrow> new_LatLng la (Num v) al = Inr \<lparr>lat = la, lng = Num v, alt = al\<rparr>"
  by (cases la) (simp_all add: new_LatLng_def)

text \<open>
  C10 (as the code has it): for a coordinate that the constructor made and whose
  longitude is finite, \<open>Earth.wrapLatLng\<close> returns a coordinate whose longitude lies in
  \<open>[-180, 180)\<close>, or is 180 when the longitude given is exactly 180; latitude and
  altitude are those given.
\<close>

theorem wrapLatLng_Earth:
  assumes "new_LatLng la (Num l) al = Inr ll"
  shows "\<exists>l'. CRS_wrapLatLng Earth ll = Inr \<lparr>lat = la, lng = Num l', alt = al\<rparr> \<and>
           (if l = 180 then l' = 180 else - 180 \<le> l' \<and> l' < 180)"
proof -
  have la: "la \<noteq> NaN"
    using assms by (cases la) (simp_all add: new_LatLng_def)
  have ll: "ll = \<lparr>lat = la, lng = Num l, alt = al\<rparr>"
    using assms new_LatLng_ok [OF la, of l al] by simp
  have r: "CRS_wrapLatLng Earth ll =
             new_LatLng la (wrapNum (Num l) (Num (- 180), Num 180) True) al"
    by (simp add: CRS_wrapLatLng_def Earth_def ll)
  show ?thesis
  proof (cases "l = 180")
    case True
    then have "wrapNum (Num l) (Num (- 180), Num 180) True = Num 180"
      by (simp add: wrapNum_def js_eq_def)
    then have "CRS_wrapLatLng Earth ll = Inr \<lparr>lat = la, lng = Num 180, alt = al\<rparr>"
      using r new_LatLng_ok [OF la] by simp
    then show ?thesis using True by simp
  next
    case False
    have ne: "(180::real) \<noteq> - 180" by simp
    obtain t where t: "0 \<le> t" "t < 1"
      "wrapNum (Num l) (Num (- 180), Num 180) False = Num ((180 - (- 180)) * t + (- 180))"
      using wrapNum_finite [OF ne] by blast
    have "\<not> (js_eq (Num l) (snd (Num (- 180), Num 180)) \<and> True)"
      using False by (simp add: js_eq_def)
    then have "wrapNum (Num l) (Num (- 180), Num 180) True =
        wrapNum (Num l) (Num (- 180), Num 180) False"
      by (rule wrapNum_else)
    then have w: "wrapNum (Num l) (Num (- 180), Num 180) True = Num (360 * t - 180)"
      using t(3) by simp
    have b: "- 180 \<le> 360 * t - 180" "360 * t - 180 < 180" using t by auto
    have "CRS_wrapLatLng Earth ll = Inr \<lparr>lat = la, lng = Num (360 * t - 180), alt = al\<rparr>"
      unfolding r w by (rule new_LatLng_ok [OF la])
    then show ?thesis using False b by auto
  qed
qed

theorem wrapLatLng_Earth_witness:
  "new_LatLng (Num 10) (Num 190) None = Inr \<lparr>lat = Num 10, lng = Num 190, alt = None\<rparr> \<and>
   (\<exists>l'. CRS_wrapLatLng Earth \<lparr>lat = Num 10, lng = Num 190, alt = None\<rparr> =
            Inr \<lparr>lat = Num 10, lng = Num l', alt = None\<rparr> \<and> - 180 \<le> l' \<and> l' < 180)"
proof -
  have c: "new_LatLng (Num 10) (Num 190) None = Inr \<lparr>lat = Num 10, lng = Num 190, alt = None\<rparr>"
    by (simp add: new_LatLng_def)
  show ?thesis
    using c wrapLatLng_Earth [OF c] by simp
qed

text \<open>
  The constructor accepts an infinite longitude; wrapping it gives \<open>NaN\<close>, and the
  constructor called by \<open>wrapLatLng\<close> raises.
\<close>

theorem wrapLatLng_infinite_counterexample:
  "new_LatLng (Num 0) PosInf None = Inr \<lparr>lat = Num 0, lng = PosInf, alt = None\<rparr> \<and>
   CRS_wrapLatLng Earth \<lparr>lat = Num 0, lng = PosInf, alt = None\<rparr> =
     Inl (InvalidLatLng (Num 0) NaN)"
  by (simp add: new_LatLng_def CRS_wrapLatLng_def Earth_def wrapNum_def js_eq_def js_sub_def)

section \<open>The prune pass\<close>

lemma set_retain_mark: "set_retain k ts = mark {k} ts"
  by (induction ts) (auto simp: set_retain_def mark_def)

lemma mark_empty: "mark {} ts = ts"
  by (induction ts) (auto simp: mark_def)

lemma mark_mark: "mark S (mark T ts) = mark (S \<union> T) ts"
  by (induction ts) (auto simp: mark_def)

lemma map_fst_mark: "map fst (mark S ts) = map fst ts"
  by (induction ts) (auto simp: mark_def)

lemma map_of_mark:
  "map_of (mark S ts) k = map_option (\<lambda>t. if k \<in> S then t\<lparr>retain := True\<rparr> else t) (map_of ts k)"
  by (induction ts) (auto simp: mark_def)

lemma tile_active_mark: "tile_active (mark S ts) = tile_active ts"
  by (rule ext) (simp add: tile_active_def map_of_mark split: option.splits)

lemma tile_loaded_mark: "tile_loaded (mark S ts) = tile_loaded ts"
  by (rule ext) (simp add: tile_loaded_def is_loaded_def map_of_mark split: option.splits)

lemma retainParent_mark:
  "retainParent ts x y z mz =
     (pfound (tile_active ts) (Suc (nat (z - 1 - mz))) x y z,
      mark (pset (tile_active ts) (tile_loaded ts) (Suc (nat (z - 1 - mz))) x y z) ts)"
proof (induction ts x y z mz rule: retainParent.induct)
  case (1 ts x y z mz)
  let ?k = "tileCoordsToKey \<lparr>tx = x div 2, ty = y div 2, tz = z - 1\<rparr>"
  have k: "anc_key x y z (Suc 0) = ?k" by (simp add: anc_key_def)
  show ?case
  proof (cases "tile_active ts ?k")
    case True
    then show ?thesis
      by (subst retainParent.simps) (simp add: k set_retain_mark)
  next
    case na: False
    let ?ts' = "if tile_loaded ts ?k then set_retain ?k ts else ts"
    have ts': "?ts' = mark (if tile_loaded ts ?k then {?k} else {}) ts"
      by (simp add: set_retain_mark mark_empty)
    show ?thesis
    proof (cases "z - 1 > mz")
      case True
      then have n: "nat (z - 1 - mz) = Suc (nat (z - 1 - 1 - mz))" by linarith
      have ih: "retainParent ?ts' (x div 2) (y div 2) (z - 1) mz =
          (pfound (tile_active ?ts') (Suc (nat (z - 1 - 1 - mz))) (x div 2) (y div 2) (z - 1),
           mark (pset (tile_active ?ts') (tile_loaded ?ts') (Suc (nat (z - 1 - 1 - mz)))
                  (x div 2) (y div 2) (z - 1)) ?ts')"
        using 1 [OF refl refl refl refl na refl True] .
      have fl: "tile_active ?ts' = tile_active ts" "tile_loaded ?ts' = tile_loaded ts"
        by (simp_all add: set_retain_mark tile_active_mark tile_loaded_mark)
      have "retainParent ts x y z mz = retainParent ?ts' (x div 2) (y div 2) (z - 1) mz"
        using na True by (subst retainParent.simps) (simp add: Let_def)
      also have "\<dots> = (pfound (tile_active ts) (Suc (nat (z - 1 - 1 - mz))) (x div 2) (y div 2) (z - 1),
           mark (pset (tile_active ts) (tile_loaded ts) (Suc (nat (z - 1 - 1 - mz)))
                  (x div 2) (y div 2) (z - 1)) ?ts')"
        unfolding ih fl ..
      finally show ?thesis
        unfolding ts' mark_mark
        using na by (simp add: n k Un_commute del: pset.simps pfound.simps add: pset.simps(2) [of _ _ "Suc _"] pfound.simps(2) [of _ "Suc _"])
    next
      case False
      then have n: "nat (z - 1 - mz) = 0" by simp
      have "retainParent ts x y z mz = (False, ?ts')"
        using na False by (subst retainParent.simps) (simp add: Let_def)
      then show ?thesis
        using na by (simp add: n k set_retain_mark mark_empty)
    qed
  qed
qed

lemma retainChildren_mark:
  "retainChildren ts x y z mz =
     mark (cset (tile_active ts) (tile_loaded ts) (Suc (nat (mz - (z + 1))))
             \<lparr>tx = x, ty = y, tz = z\<rparr>) ts"
proof (induction ts x y z mz rule: retainChildren.induct)
  case (1 ts x y z mz)
  define A where "A = tile_active ts"
  define Ld where "Ld = tile_loaded ts"
  define f where "f = (\<lambda>ij ts.
        (let i = fst ij;
             j = snd ij;
             key = tileCoordsToKey \<lparr>tx = i, ty = j, tz = z + 1\<rparr>
         in if tile_active ts key then set_retain key ts
            else (let ts' = (if tile_loaded ts key then set_retain key ts else ts)
                  in if z + 1 < mz then retainChildren ts' i j (z + 1) mz else ts')))"
  define S where "S = (\<lambda>c1. cmark A Ld (tileCoordsToKey c1) \<union>
        (if A (tileCoordsToKey c1) then {} else cset A Ld (nat (mz - (z + 1))) c1))"
  have step: "f (i, j) tsn = mark (S \<lparr>tx = i, ty = j, tz = z + 1\<rparr>) tsn"
    if mem: "(i, j) \<in> set [(2 * x, 2 * y), (2 * x, 2 * y + 1), (2 * x + 1, 2 * y),
                   (2 * x + 1, 2 * y + 1)]"
      and fl: "tile_active tsn = A" "tile_loaded tsn = Ld"
    for i j tsn
  proof -
    let ?k = "tileCoordsToKey \<lparr>tx = i, ty = j, tz = z + 1\<rparr>"
    show ?thesis
    proof (cases "A ?k")
      case True
      then show ?thesis
        by (simp add: f_def S_def fl cmark_def set_retain_mark)
    next
      case na: False
      let ?ts' = "if tile_loaded tsn ?k then set_retain ?k tsn else tsn"
      have ts': "?ts' = mark (cmark A Ld ?k) tsn"
        using na by (simp add: cmark_def fl set_retain_mark mark_empty)
      show ?thesis
      proof (cases "z + 1 < mz")
        case True
        then have n: "Suc (nat (mz - (z + 1 + 1))) = nat (mz - (z + 1))" by linarith
        have na': "\<not> tile_active tsn ?k" using na fl by simp
        have ih: "retainChildren ?ts' i j (z + 1) mz =
            mark (cset (tile_active ?ts') (tile_loaded ?ts') (Suc (nat (mz - (z + 1 + 1))))
                   \<lparr>tx = i, ty = j, tz = z + 1\<rparr>) ?ts'"
          using 1 [of "(i, j)" i j ?k tsn ?ts'] mem na' True by simp
        have fl': "tile_active ?ts' = A" "tile_loaded ?ts' = Ld"
          by (simp_all add: set_retain_mark tile_active_mark tile_loaded_mark fl)
        have "f (i, j) tsn = retainChildren ?ts' i j (z + 1) mz"
          using na' True by (simp add: f_def Let_def)
        also have "\<dots> = mark (cset A Ld (nat (mz - (z + 1))) \<lparr>tx = i, ty = j, tz = z + 1\<rparr>) ?ts'"
          unfolding ih fl' n ..
        finally show ?thesis
          unfolding ts' mark_mark using na by (simp add: S_def Un_commute)
      next
        case False
        then have n: "nat (mz - (z + 1)) = 0" by simp
        have "f (i, j) tsn = ?ts'"
          using na False fl by (simp add: f_def Let_def)
        then show ?thesis
          unfolding ts' using na by (simp add: S_def n)
      qed
    qed
  qed
  have flm: "tile_active (mark T ts) = A" "tile_loaded (mark T ts) = Ld" for T
    by (simp_all add: A_def Ld_def tile_active_mark tile_loaded_mark)
  have fl0: "tile_active ts = A" "tile_loaded ts = Ld"
    by (simp_all add: A_def Ld_def)
  let ?c1 = "\<lparr>tx = 2 * x, ty = 2 * y, tz = z + 1\<rparr>"
  let ?c2 = "\<lparr>tx = 2 * x, ty = 2 * y + 1, tz = z + 1\<rparr>"
  let ?c3 = "\<lparr>tx = 2 * x + 1, ty = 2 * y, tz = z + 1\<rparr>"
  let ?c4 = "\<lparr>tx = 2 * x + 1, ty = 2 * y + 1, tz = z + 1\<rparr>"
  have s1: "f (2 * x, 2 * y) ts = mark (S ?c1) ts"
    by (rule step) (simp_all add: fl0)
  have s2: "f (2 * x, 2 * y + 1) (mark (S ?c1) ts) = mark (S ?c2) (mark (S ?c1) ts)"
    by (rule step) (simp_all add: flm)
  have s3: "f (2 * x + 1, 2 * y) (mark (S ?c2 \<union> S ?c1) ts) =
      mark (S ?c3) (mark (S ?c2 \<union> S ?c1) ts)"
    by (rule step) (simp_all add: flm)
  have s4: "f (2 * x + 1, 2 * y + 1) (mark (S ?c3 \<union> (S ?c2 \<union> S ?c1)) ts) =
      mark (S ?c4) (mark (S ?c3 \<union> (S ?c2 \<union> S ?c1)) ts)"
    by (rule step) (simp_all add: flm)
  have "retainChildren ts x y z mz =
      fold f [(2 * x, 2 * y), (2 * x, 2 * y + 1), (2 * x + 1, 2 * y), (2 * x + 1, 2 * y + 1)] ts"
    by (subst retainChildren.simps) (simp add: f_def)
  also have "\<dots> = mark (S ?c4 \<union> (S ?c3 \<union> (S ?c2 \<union> S ?c1))) ts"
    by (simp add: s1 s2 s3 s4 mark_mark)
  also have "S ?c4 \<union> (S ?c3 \<union> (S ?c2 \<union> S ?c1)) =
      cset A Ld (Suc (nat (mz - (z + 1)))) \<lparr>tx = x, ty = y, tz = z\<rparr>"
    by (simp add: children_def S_def Un_ac)
  finally show ?case by (simp add: A_def Ld_def)
qed

lemma anc_key_shift: "anc_key (x div 2) (y div 2) (z - 1) n = anc_key x y z (Suc n)"
proof -
  have "a div 2 div 2 ^ n = a div (2 * 2 ^ n)" for a :: int
    by (simp add: zdiv_zmult2_eq)
  then show ?thesis by (simp add: anc_key_def diff_diff_eq)
qed

lemma pfound_iff:
  "pfound A N x y z = (\<exists>n. 1 \<le> n \<and> n \<le> N \<and> A (anc_key x y z n))"
proof (induction N arbitrary: x y z)
  case 0
  then show ?case by simp
next
  case (Suc N)
  show ?case
  proof
    assume "pfound A (Suc N) x y z"
    then consider "A (anc_key x y z (Suc 0))" | "pfound A N (x div 2) (y div 2) (z - 1)"
      by auto
    then show "\<exists>n. 1 \<le> n \<and> n \<le> Suc N \<and> A (anc_key x y z n)"
    proof cases
      case 1
      then show ?thesis by (intro exI [of _ "Suc 0"]) simp
    next
      case 2
      then obtain n where "1 \<le> n" "n \<le> N" "A (anc_key x y z (Suc n))"
        using Suc.IH by (auto simp: anc_key_shift)
      then show ?thesis by (intro exI [of _ "Suc n"]) simp
    qed
  next
    assume "\<exists>n. 1 \<le> n \<and> n \<le> Suc N \<and> A (anc_key x y z n)"
    then obtain n where n: "1 \<le> n" "n \<le> Suc N" "A (anc_key x y z n)" by blast
    show "pfound A (Suc N) x y z"
    proof (cases "n = Suc 0")
      case True
      then show ?thesis using n by simp
    next
      case False
      then obtain n' where n': "n = Suc n'" "1 \<le> n'" "n' \<le> N"
        using n by (cases n) auto
      then have "pfound A N (x div 2) (y div 2) (z - 1)"
        using Suc.IH n(3) by (auto simp: anc_key_shift)
      then show ?thesis by simp
    qed
  qed
qed

lemma pset_iff:
  "k \<in> pset A Ld N x y z =
     (\<exists>n. 1 \<le> n \<and> n \<le> N \<and> k = anc_key x y z n \<and> (A k \<or> Ld k) \<and>
          (\<forall>m. 1 \<le> m \<and> m < n \<longrightarrow> \<not> A (anc_key x y z m)))"
proof (induction N arbitrary: x y z)
  case 0
  then show ?case by simp
next
  case (Suc N)
  let ?k1 = "anc_key x y z (Suc 0)"
  let ?R = "\<lambda>n. 1 \<le> n \<and> n \<le> Suc N \<and> k = anc_key x y z n \<and> (A k \<or> Ld k) \<and>
          (\<forall>m. 1 \<le> m \<and> m < n \<longrightarrow> \<not> A (anc_key x y z m))"
  show ?case
  proof
    assume l: "k \<in> pset A Ld (Suc N) x y z"
    show "\<exists>n. ?R n"
    proof (cases "A ?k1")
      case True
      then have "k = ?k1" using l by simp
      then have "?R (Suc 0)" using True by simp
      then show ?thesis by blast
    next
      case False
      then consider "Ld ?k1" "k = ?k1" | "k \<in> pset A Ld N (x div 2) (y div 2) (z - 1)"
        using l by (auto split: if_splits)
      then show ?thesis
      proof cases
        case 1
        then have "?R (Suc 0)" by simp
        then show ?thesis by blast
      next
        case 2
        then obtain n where n: "1 \<le> n" "n \<le> N" "k = anc_key x y z (Suc n)" "A k \<or> Ld k"
          "\<forall>m. 1 \<le> m \<and> m < n \<longrightarrow> \<not> A (anc_key x y z (Suc m))"
          using Suc.IH [of "x div 2" "y div 2" "z - 1"] by (auto simp: anc_key_shift)
        have "\<not> A (anc_key x y z m)" if h: "1 \<le> m \<and> m < Suc n" for m
        proof (cases "m = Suc 0")
          case True
          then show ?thesis using False by simp
        next
          case f: False
          then obtain m' where "m = Suc m'" "1 \<le> m'" "m' < n"
            using h f by (cases m) auto
          then show ?thesis using n(5) by simp
        qed
        then have "?R (Suc n)" using n by simp
        then show ?thesis by blast
      qed
    qed
  next
    assume "\<exists>n. ?R n"
    then obtain n where n: "?R n" by blast
    show "k \<in> pset A Ld (Suc N) x y z"
    proof (cases "n = Suc 0")
      case True
      then show ?thesis using n by auto
    next
      case False
      then obtain n' where n': "n = Suc n'" "1 \<le> n'" "n' \<le> N"
        using n by (cases n) auto
      have na: "\<not> A ?k1" using n n' by auto
      have "\<forall>m. 1 \<le> m \<and> m < n' \<longrightarrow> \<not> A (anc_key x y z (Suc m))"
        using n n' by auto
      then have "k \<in> pset A Ld N (x div 2) (y div 2) (z - 1)"
        using Suc.IH [of "x div 2" "y div 2" "z - 1"] n n'
        by (auto simp: anc_key_shift)
      then show ?thesis using na by simp
    qed
  qed
qed

lemma anc_key_ancestor: "anc_key (tx c) (ty c) (tz c) n = tileCoordsToKey (ancestor c n)"
  by (simp add: anc_key_def ancestor_def)

lemma list_all_upt_1: "list_all P [1..<n] = (\<forall>m. 1 \<le> m \<and> m < n \<longrightarrow> P m)"
  by (auto simp: list_all_iff)

lemma list_ex_upt_1_6: "list_ex Q [1..<6] = (\<exists>n. 1 \<le> n \<and> n \<le> (5::nat) \<and> Q n)"
proof -
  have "set [1..<6] = {n. 1 \<le> n \<and> n \<le> (5::nat)}" by auto
  then show ?thesis by (auto simp: list_ex_iff)
qed

lemma kept_as_parent_pset:
  "kept_as_parent ts c k =
     (k \<in> pset (tile_active ts) (tile_loaded ts) 5 (tx c) (ty c) (tz c))"
  unfolding pset_iff kept_as_parent_def list_ex_upt_1_6 list_all_upt_1 anc_key_ancestor
  by (rule refl)

lemma has_active_parent_pfound:
  "has_active_parent ts c = pfound (tile_active ts) 5 (tx c) (ty c) (tz c)"
  unfolding pfound_iff has_active_parent_def list_ex_upt_1_6 anc_key_ancestor
  by (rule refl)

lemma cmark_iff: "k \<in> cmark A Ld k' = (k = k' \<and> (A k \<or> Ld k))"
  by (auto simp: cmark_def)

lemma cset_2:
  "k \<in> cset A Ld (Suc (Suc 0)) c =
     (\<exists>c1 \<in> set (children c).
        (k = tileCoordsToKey c1 \<and> (A k \<or> Ld k)) \<or>
        (\<not> A (tileCoordsToKey c1) \<and>
         (\<exists>c2 \<in> set (children c1). k = tileCoordsToKey c2 \<and> (A k \<or> Ld k))))"
  by (simp add: cmark_iff) blast

lemma kept_as_child_cset:
  "kept_as_child ts c k = (k \<in> cset (tile_active ts) (tile_loaded ts) 2 c)"
proof -
  have 2: "(2::nat) = Suc (Suc 0)" by simp
  show ?thesis
    unfolding 2 cset_2 kept_as_child_def list_ex_iff by (rule refl)
qed

lemma retain_step_mark: "retain_step key ts = mark (retain_set ts key) ts"
proof (cases "map_of ts key")
  case None
  then show ?thesis by (simp add: retain_step_def retain_set_def mark_empty)
next
  case (Some t)
  have n5: "Suc (nat (tz (coords t) - 1 - (tz (coords t) - 5))) = 5" by simp
  have n2: "Suc (nat (tz (coords t) + 2 - (tz (coords t) + 1))) = 2" by simp
  have c: "\<lparr>tx = tx (coords t), ty = ty (coords t), tz = tz (coords t)\<rparr> = coords t" by simp
  show ?thesis
    unfolding retain_step_def retain_set_def Some option.case Let_def
      retainParent_mark retainChildren_mark fst_conv snd_conv n5 n2 c
      tile_active_mark tile_loaded_mark mark_mark
    by (simp add: mark_empty Un_commute)
qed

lemma retain_set_mark: "retain_set (mark S ts) key = retain_set ts key"
  by (cases "map_of ts key")
    (auto simp: retain_set_def map_of_mark tile_active_mark tile_loaded_mark)

lemma fold_retain_step:
  "fold retain_step ks ts = mark (\<Union>k \<in> set ks. retain_set ts k) ts"
proof (induction ks arbitrary: ts)
  case Nil
  then show ?case by (simp add: mark_empty)
next
  case (Cons k ks)
  have "fold retain_step (k # ks) ts = fold retain_step ks (mark (retain_set ts k) ts)"
    by (simp add: retain_step_mark)
  also have "\<dots> = mark (\<Union>k' \<in> set ks. retain_set ts k') (mark (retain_set ts k) ts)"
    unfolding Cons.IH retain_set_mark ..
  also have "\<dots> = mark (\<Union>k' \<in> set (k # ks). retain_set ts k') ts"
    by (simp add: mark_mark Un_commute)
  finally show ?case .
qed

lemma prune_loop:
  assumes "distinct (map fst (pre @ rest))" "tiles L = pre @ rest"
  shows "tiles (fold prune_step (map fst rest) L) = pre @ filter (\<lambda>(k, t). retain t) rest \<and>
         fired (fold prune_step (map fst rest) L) =
           fired L @ map (\<lambda>k. TileUnload (keyToTileCoords k))
                       (map fst (filter (\<lambda>(k, t). \<not> retain t) rest))"
  using assms
proof (induction rest arbitrary: pre L)
  case Nil
  then show ?case by simp
next
  case (Cons a rest)
  obtain k t where a: "a = (k, t)" by (cases a)
  have d: "distinct (map fst (pre @ (k, t) # rest))" using Cons.prems(1) a by simp
  have kpre: "k \<notin> fst ` set pre" and krest: "k \<notin> fst ` set rest"
    using d by auto
  have "map_of pre k = None"
    using kpre by (simp add: map_of_eq_None_iff)
  then have look: "map_of (tiles L) k = Some t"
    by (simp add: Cons.prems(2) a map_add_def)
  show ?case
  proof (cases "retain t")
    case True
    have st: "prune_step k L = L" using look True by (simp add: prune_step_def)
    have "distinct (map fst ((pre @ [(k, t)]) @ rest))" using d by simp
    moreover have "tiles L = (pre @ [(k, t)]) @ rest" using Cons.prems(2) a by simp
    ultimately show ?thesis
      using Cons.IH [of "pre @ [(k, t)]" L] True by (simp add: a st)
  next
    case False
    have fp: "filter (\<lambda>(k', t). k' \<noteq> k) pre = pre"
      using kpre by (force simp: filter_id_conv)
    have fr: "filter (\<lambda>(k', t). k' \<noteq> k) rest = rest"
      using krest by (force simp: filter_id_conv)
    let ?L' = "L\<lparr>tiles := pre @ rest, fired := fired L @ [TileUnload (keyToTileCoords k)]\<rparr>"
    have st: "prune_step k L = ?L'"
      using look False by (simp add: prune_step_def removeTile_def Cons.prems(2) a fp fr)
    have "distinct (map fst (pre @ rest))" using d by simp
    moreover have "tiles ?L' = pre @ rest" by simp
    ultimately show ?thesis
      using Cons.IH [of pre ?L'] False by (simp add: a st)
  qed
qed

lemma map_of_reset:
  "map_of (reset_retain ts) k = map_option (\<lambda>t. t\<lparr>retain := current t\<rparr>) (map_of ts k)"
  by (induction ts) (auto simp: reset_retain_def)

lemma map_fst_reset: "map fst (reset_retain ts) = map fst ts"
  by (induction ts) (auto simp: reset_retain_def)

lemma tile_active_reset: "tile_active (reset_retain ts) = tile_active ts"
  by (rule ext) (simp add: tile_active_def map_of_reset split: option.splits)

lemma tile_loaded_reset: "tile_loaded (reset_retain ts) = tile_loaded ts"
  by (rule ext) (simp add: tile_loaded_def is_loaded_def map_of_reset split: option.splits)

lemma retain_set_reset: "retain_set (reset_retain ts) key = retain_set ts key"
  by (cases "map_of ts key")
    (auto simp: retain_set_def map_of_reset tile_active_reset tile_loaded_reset)

lemma retain_set_iff:
  assumes "map_of ts k' = Some t'"
  shows "k \<in> retain_set ts k' =
     (current t' \<and> \<not> active t' \<and>
      (kept_as_parent ts (coords t') k \<or>
       (\<not> has_active_parent ts (coords t') \<and> kept_as_child ts (coords t') k)))"
  unfolding kept_as_parent_pset has_active_parent_pfound kept_as_child_cset
  by (simp add: retain_set_def assms)

lemma protected_iff:
  assumes d: "distinct (map fst ts)" and kt: "(k, t) \<in> set ts"
  shows "protected ts k = (current t \<or> k \<in> (\<Union>k' \<in> set (map fst ts). retain_set ts k'))"
proof -
  have look: "map_of ts k = Some t" using d kt by simp
  have "list_ex (\<lambda>(k', t'). current t' \<and> \<not> active t' \<and>
                     (kept_as_parent ts (coords t') k \<or>
                      (\<not> has_active_parent ts (coords t') \<and> kept_as_child ts (coords t') k)))
            ts = (\<exists>k' \<in> set (map fst ts). k \<in> retain_set ts k')"
    (is "?l = ?r")
  proof
    assume ?l
    then obtain k' t' where m: "(k', t') \<in> set ts" and c: "current t' \<and> \<not> active t' \<and>
                     (kept_as_parent ts (coords t') k \<or>
                      (\<not> has_active_parent ts (coords t') \<and> kept_as_child ts (coords t') k))"
      by (auto simp: list_ex_iff)
    have "map_of ts k' = Some t'" using d m by simp
    then have "k \<in> retain_set ts k'" using c by (simp add: retain_set_iff)
    moreover have "k' \<in> set (map fst ts)" using m by force
    ultimately show ?r by blast
  next
    assume ?r
    then obtain k' where k': "k' \<in> set (map fst ts)" "k \<in> retain_set ts k'" by blast
    then obtain t' where m: "(k', t') \<in> set ts" by auto
    have "map_of ts k' = Some t'" using d m by simp
    then have "current t' \<and> \<not> active t' \<and>
                     (kept_as_parent ts (coords t') k \<or>
                      (\<not> has_active_parent ts (coords t') \<and> kept_as_child ts (coords t') k))"
      using k'(2) by (simp add: retain_set_iff)
    then show ?l using m by (auto simp: list_ex_iff)
  qed
  then show ?thesis by (simp add: protected_def look)
qed

lemma pruneTiles_result:
  assumes d: "distinct (map fst (tiles L))"
    and z: "\<not> opt_gt (map_zoom m) (maxZoom L)" "\<not> opt_lt (map_zoom m) (minZoom L)"
  shows "tiles (pruneTiles L (Some m)) =
           map (\<lambda>(k, t). (k, t\<lparr>retain := True\<rparr>))
             (filter (\<lambda>(k, t). protected (tiles L) k) (tiles L)) \<and>
         fired (pruneTiles L (Some m)) =
           fired L @ map (\<lambda>k. TileUnload (keyToTileCoords k))
             (map fst (filter (\<lambda>(k, t). \<not> protected (tiles L) k) (tiles L)))"
proof -
  let ?ts0 = "tiles L"
  let ?ts1 = "reset_retain ?ts0"
  define U where "U = (\<Union>k \<in> set (map fst ?ts0). retain_set ?ts0 k)"
  let ?ts2 = "mark U ?ts1"
  have ts2: "fold retain_step (map fst ?ts1) ?ts1 = ?ts2"
    by (simp add: fold_retain_step map_fst_reset retain_set_reset U_def)
  have p: "pruneTiles L (Some m) = fold prune_step (map fst ?ts2) (L\<lparr>tiles := ?ts2\<rparr>)"
    using z by (simp add: pruneTiles_def Let_def ts2 reset_retain_def [symmetric])
  have keys: "map fst ?ts2 = map fst ?ts0"
    by (simp add: map_fst_mark map_fst_reset)
  have "distinct (map fst ([] @ ?ts2))" using d keys by simp
  moreover have "tiles (L\<lparr>tiles := ?ts2\<rparr>) = [] @ ?ts2" by simp
  ultimately have loop:
    "tiles (fold prune_step (map fst ?ts2) (L\<lparr>tiles := ?ts2\<rparr>)) =
       [] @ filter (\<lambda>(k, t). retain t) ?ts2 \<and>
     fired (fold prune_step (map fst ?ts2) (L\<lparr>tiles := ?ts2\<rparr>)) =
       fired (L\<lparr>tiles := ?ts2\<rparr>) @ map (\<lambda>k. TileUnload (keyToTileCoords k))
         (map fst (filter (\<lambda>(k, t). \<not> retain t) ?ts2))"
    by (rule prune_loop)
  define h :: "string \<times> Tile \<Rightarrow> string \<times> Tile" where "h = (\<lambda>(k, t). (k, t\<lparr>retain := (current t \<or> k \<in> U)\<rparr>))"
  have h: "?ts2 = map h ?ts0"
    by (auto simp: mark_def reset_retain_def h_def)
  have pr: "protected ?ts0 k = (current t \<or> k \<in> U)" if "(k, t) \<in> set ?ts0" for k t
    unfolding U_def using protected_iff [OF d that] .
  have f1: "filter (\<lambda>(k, t). retain t) (map h ?ts0) =
      map (\<lambda>(k, t). (k, t\<lparr>retain := True\<rparr>)) (filter (\<lambda>(k, t). protected ?ts0 k) ?ts0)"
    unfolding filter_map
    by (rule trans [OF arg_cong [where f = "map h"] map_cong])
       (auto simp: h_def pr intro!: filter_cong)
  have f2: "map fst (filter (\<lambda>(k, t). \<not> retain t) (map h ?ts0)) =
      map fst (filter (\<lambda>(k, t). \<not> protected ?ts0 k) ?ts0)"
    unfolding filter_map map_map
    by (rule trans [OF arg_cong [where f = "map (fst \<circ> h)"] map_cong])
       (auto simp: h_def pr intro!: filter_cong)
  show ?thesis
    unfolding p using loop by (simp add: h f1 f2)
qed

text \<open>
  C1 (as the code has it): in a prune pass with the map zoom within the zoom limits of
  the layer, the tiles that stay are, in their order, exactly the tracked tiles that
  the rules protect, each with its \<open>retain\<close> flag set; a tile is protected when it is
  current, or when for some current tile \<open>c\<close> that is not active it is an ancestor of
  \<open>c\<close> at most 5 levels up that is active or loaded with no active ancestor of \<open>c\<close>
  closer to \<open>c\<close>, or, when \<open>c\<close> has no active ancestor within 5 levels, a child of \<open>c\<close>
  that is active or loaded or such a grandchild whose parent is not active. Every
  other tracked tile is removed, and one \<open>tileunload\<close> fires for each, in their order.
\<close>

theorem pruneTiles_retention:
  assumes d: "distinct (map fst (tiles L))"
    and z: "\<not> opt_gt (map_zoom m) (maxZoom L)" "\<not> opt_lt (map_zoom m) (minZoom L)"
  shows "tiles (pruneTiles L (Some m)) =
           map (\<lambda>(k, t). (k, t\<lparr>retain := True\<rparr>))
             (filter (\<lambda>(k, t). protected (tiles L) k) (tiles L)) \<and>
         fired (pruneTiles L (Some m)) =
           fired L @ map (\<lambda>k. TileUnload (keyToTileCoords k))
             (map fst (filter (\<lambda>(k, t). \<not> protected (tiles L) k) (tiles L))) \<and>
         (k \<in> fst ` set (tiles (pruneTiles L (Some m)))) = protected (tiles L) k"
proof -
  note r = pruneTiles_result [OF d z]
  have "(k \<in> fst ` set (tiles (pruneTiles L (Some m)))) =
      (\<exists>t. (k, t) \<in> set (tiles L) \<and> protected (tiles L) k)"
    unfolding conjunct1 [OF r] by force
  also have "\<dots> = protected (tiles L) k"
  proof
    assume "\<exists>t. (k, t) \<in> set (tiles L) \<and> protected (tiles L) k"
    then show "protected (tiles L) k" by blast
  next
    assume p: "protected (tiles L) k"
    then obtain t where "map_of (tiles L) k = Some t"
      by (auto simp: protected_def split: option.splits)
    then have "(k, t) \<in> set (tiles L)" by (rule map_of_SomeD)
    then show "\<exists>t. (k, t) \<in> set (tiles L) \<and> protected (tiles L) k" using p by blast
  qed
  finally show ?thesis using r by simp
qed

theorem pruneTiles_retention_witness:
  "distinct (map fst (tiles zoomingLayer)) \<and>
   \<not> opt_gt (map_zoom zoomingMap) (maxZoom zoomingLayer) \<and>
   \<not> opt_lt (map_zoom zoomingMap) (minZoom zoomingLayer) \<and>
   map fst (tiles (pruneTiles zoomingLayer (Some zoomingMap))) = [''0:0:3'', ''0:0:2'', ''0:0:1''] \<and>
   fired (pruneTiles zoomingLayer (Some zoomingMap)) =
     [TileUnload (Some \<lparr>tx = 5, ty = 5, tz = 3\<rparr>)]"
proof -
  have d: "distinct (map fst (tiles zoomingLayer))" by code_simp
  have z1: "\<not> opt_gt (map_zoom zoomingMap) (maxZoom zoomingLayer)" by code_simp
  have z2: "\<not> opt_lt (map_zoom zoomingMap) (minZoom zoomingLayer)" by code_simp
  note r = pruneTiles_retention [OF d z1 z2, of "''0:0:1''"]
  have a: "map fst (map (\<lambda>(k, t). (k, t\<lparr>retain := True\<rparr>))
             (filter (\<lambda>(k, t). protected (tiles zoomingLayer) k) (tiles zoomingLayer))) =
           [''0:0:3'', ''0:0:2'', ''0:0:1'']"
    by code_simp
  have b: "fired zoomingLayer @ map (\<lambda>k. TileUnload (keyToTileCoords k))
             (map fst (filter (\<lambda>(k, t). \<not> protected (tiles zoomingLayer) k)
                (tiles zoomingLayer))) =
           [TileUnload (Some \<lparr>tx = 5, ty = 5, tz = 3\<rparr>)]"
    by code_simp
  show ?thesis
    using d z1 z2 a b r by simp
qed

text \<open>
  During the zoom-in the tile \<open>0:0:1\<close> stays: it is loaded, and the closer ancestor
  \<open>0:0:2\<close> is loaded but not active, so the search goes on above it. It is not current,
  not the closest loaded ancestor of the current tile, and no descendant of it.
\<close>

theorem pruneTiles_closest_ancestor_counterexample:
  "\<not> opt_gt (map_zoom zoomingMap) (maxZoom zoomingLayer) \<and>
   \<not> opt_lt (map_zoom zoomingMap) (minZoom zoomingLayer) \<and>
   ''0:0:1'' \<in> fst ` set (tiles (pruneTiles zoomingLayer (Some zoomingMap))) \<and>
   \<not> protected_spec (tiles zoomingLayer) ''0:0:1''"
  by code_simp

section \<open>A pass over a finite tile range\<close>

text \<open>
  With the small container the range is the single tile \<open>(4, 4)\<close>: the pass clears
  \<open>current\<close> on the tile outside the kept margin, fires \<open>loading\<close> and creates the tile
  \<open>4:4:3\<close>.
\<close>

lemma update_small_view:
  "map fst (tiles (fst (update zoomingLayer (Some smallEnv) None))) =
     [''0:0:3'', ''0:0:2'', ''0:0:1'', ''5:5:3'', ''4:4:3''] \<and>
   map (current \<circ> snd) (tiles (fst (update zoomingLayer (Some smallEnv) None))) =
     [False, False, False, False, True] \<and>
   fired (fst (update zoomingLayer (Some smallEnv) None)) =
     [Loading, TileLoadStart \<lparr>tx = 4, ty = 4, tz = 3\<rparr>] \<and>
   snd (update zoomingLayer (Some smallEnv) None) = None"
proof -
  have range: "pxBoundsToTileRange zoomingLayer
      (getTiledPixelBounds zoomingLayer smallEnv \<lparr>lat = Num 0, lng = Num 0, alt = None\<rparr> 3) =
      \<lparr>bmin = \<lparr>px = Num 4, py = Num 4\<rparr>, bmax = \<lparr>px = Num 4, py = Num 4\<rparr>\<rparr>"
    by code_simp
  have center: "getCenter (the_map smallEnv) = Inr \<lparr>lat = Num 0, lng = Num 0, alt = None\<rparr>"
    by code_simp
  have tz: "tileZoom zoomingLayer = Some 3"
    by code_simp
  have zoom: "clampZoom zoomingLayer (to_number (map_zoom (the_map smallEnv))) = Num 3"
    by code_simp
  have margin: "keepBuffer zoomingLayer = Num 2"
    by code_simp
  have valid: "isValidTile smallEnv = (\<lambda>c. True)"
    by (simp add: smallEnv_def zoomingEnv_def)
  have ts: "tiles zoomingLayer =
      [(''0:0:3'', \<lparr>coords = \<lparr>tx = 0, ty = 0, tz = 3\<rparr>, current = True, active = False,
                    loaded = None, retain = False\<rparr>),
       (''0:0:2'', \<lparr>coords = \<lparr>tx = 0, ty = 0, tz = 2\<rparr>, current = False, active = False,
                    loaded = Some (Num 1000), retain = False\<rparr>),
       (''0:0:1'', \<lparr>coords = \<lparr>tx = 0, ty = 0, tz = 1\<rparr>, current = False, active = False,
                    loaded = Some (Num 1000), retain = False\<rparr>),
       (''5:5:3'', \<lparr>coords = \<lparr>tx = 5, ty = 5, tz = 3\<rparr>, current = False, active = True,
                    loaded = Some (Num 1000), retain = False\<rparr>)]"
    by (simp add: zoomingLayer_def)
  have key: "tileCoordsToKey \<lparr>tx = 4, ty = 4, tz = 3\<rparr> = ''4:4:3''"
    by code_simp
  have flags: "loading zoomingLayer = False" "fired zoomingLayer = []"
    by (simp_all add: zoomingLayer_def defaultLayer_def)
  show ?thesis
    by (simp add: update_def center tz zoom margin valid ts key flags range Let_def
        Bounds_getCenter_def Bounds_getBottomLeft_def Bounds_getTopRight_def new_Bounds_def
        Bounds_extend_def Point_subtract_def Point_add_def js_sub_def js_min_def js_max_def
        js_gt_def Bounds_contains_def coordsPoint_def js_ge_def js_le_def js_eq_def
        visit_tile_def Array_sort_def addTile_def)
qed

section \<open>A tile range that is not finite\<close>

text \<open>
  C2: when the layer is on a map, the centre is at hand (given, or the map's view is
  loaded) and the tile zoom is defined, a pass of \<open>_update\<close> whose tile range has a
  bound that is not finite raises \<open>Attempted to load an infinite number of tiles\<close> and
  leaves the layer as it was: no tile is marked, queued or created, the tiles by key
  and the events fired are unchanged.
\<close>

theorem update_infinite_range_aborts:
  assumes tz: "tileZoom layer = Some tz0"
    and c: "(case centerArg of None \<Rightarrow> getCenter (the_map env) | Some c \<Rightarrow> Inr c) = Inr center"
    and r: "tileRange = pxBoundsToTileRange layer (getTiledPixelBounds layer env center tz0)"
    and inf: "\<not> (isFinite (px (bmin tileRange)) \<and> isFinite (py (bmin tileRange)) \<and>
                 isFinite (px (bmax tileRange)) \<and> isFinite (py (bmax tileRange)))"
  shows "update layer (Some env) centerArg = (layer, Some InfiniteTiles)"
  using inf unfolding r
  by (simp add: update_def c tz Let_def)

theorem update_infinite_range_aborts_witness:
  "tileZoom brokenLayer = Some 3 \<and>
   pxBoundsToTileRange brokenLayer
     (getTiledPixelBounds brokenLayer zoomingEnv \<lparr>lat = Num 0, lng = Num 0, alt = None\<rparr> 3) =
     \<lparr>bmin = \<lparr>px = PosInf, py = PosInf\<rparr>, bmax = \<lparr>px = PosInf, py = PosInf\<rparr>\<rparr> \<and>
   update brokenLayer (Some zoomingEnv) None = (brokenLayer, Some InfiniteTiles)"
proof -
  have tz: "tileZoom brokenLayer = Some 3" by code_simp
  have c: "(case None of None \<Rightarrow> getCenter (the_map zoomingEnv) | Some c \<Rightarrow> Inr c) =
      Inr \<lparr>lat = Num 0, lng = Num 0, alt = None\<rparr>"
    by code_simp
  have r: "pxBoundsToTileRange brokenLayer
     (getTiledPixelBounds brokenLayer zoomingEnv \<lparr>lat = Num 0, lng = Num 0, alt = None\<rparr> 3) =
     \<lparr>bmin = \<lparr>px = PosInf, py = PosInf\<rparr>, bmax = \<lparr>px = PosInf, py = PosInf\<rparr>\<rparr>"
    by code_simp
  have "update brokenLayer (Some zoomingEnv) None = (brokenLayer, Some InfiniteTiles)"
    by (rule update_infinite_range_aborts [OF tz c refl]) (simp add: r)
  then show ?thesis using tz r by simp
qed

end
